theory Spec2Isabelle
  imports Complex_Main
begin

section \<open>Machine integers of ffplayer.c\<close>

text \<open>
  The counters of the program are C \<open>int\<close> (32 bits) and \<open>int64_t\<close> fields. They are
  modelled as \<open>int\<close> with the two's complement wrap-around written out, which is what
  the compiled increments and the conversions back to \<open>int\<close> do; the theorems below
  say where they need the value to stay in range.
\<close>

definition INT_MAX :: int where
  "INT_MAX = 2147483647"

definition INT_MIN :: int where
  "INT_MIN = - 2147483648"

definition INT64_MAX :: int where
  "INT64_MAX = 9223372036854775807"

definition INT64_MIN :: int where
  "INT64_MIN = - 9223372036854775808"

definition wrap32 :: "int \<Rightarrow> int" where
  "wrap32 x = (x + 2147483648) mod 4294967296 - 2147483648"

definition wrap64 :: "int \<Rightarrow> int" where
  "wrap64 x = (x + 9223372036854775808) mod 18446744073709551616 - 9223372036854775808"

section \<open>Packets and the packet queue\<close>

text \<open>
  The payload pointer of an \<open>AVPacket\<close>: \<open>NULL\<close>, the address of the global
  \<open>flush_pkt\<close> (main stores \<open>&flush_pkt\<close> in \<open>flush_pkt.data\<close>), or some buffer.
\<close>

datatype data_ptr = Null_data | Flush_pkt_data | Buffer nat

text \<open>The fields of \<open>AVPacket\<close> that the queue reads or writes.\<close>

record AVPacket =
  data :: data_ptr
  size :: int
  stream_index :: int
  duration :: int

text \<open>
  The global \<open>flush_pkt\<close>: static storage (all zero) with \<open>data\<close> pointing at itself.
\<close>

definition flush_pkt :: AVPacket where
  "flush_pkt = \<lparr>data = Flush_pkt_data, size = 0, stream_index = 0, duration = 0\<rparr>"

text \<open>
  A packet argument \<open>AVPacket *pkt\<close>. The code compares the pointer with \<open>&flush_pkt\<close>,
  so the argument is either that address or a pointer to some other packet.
\<close>

datatype pkt_ptr = Flush_pkt_ptr | Pkt_ptr AVPacket

fun deref_pkt :: "pkt_ptr \<Rightarrow> AVPacket" where
  "deref_pkt Flush_pkt_ptr = flush_pkt"
| "deref_pkt (Pkt_ptr p) = p"

text \<open>One entry of the queue: \<open>MyAVPacketList\<close> without its \<open>next\<close> link.\<close>

record MyAVPacketList =
  pkt :: AVPacket
  serial :: int

text \<open>
  \<open>PacketQueue\<close>. The singly linked list from \<open>first_pkt\<close> to \<open>last_pkt\<close> is the HOL
  list \<open>first_pkt\<close>, head first; \<open>last_pkt\<close> is its last element and \<open>NULL\<close> when the
  list is empty. The mutex and the condition variable are left out.
\<close>

record PacketQueue =
  first_pkt :: "MyAVPacketList list"
  nb_packets :: int
  size :: int
  duration :: int
  abort_request :: int
  serial :: int

text \<open>
  \<open>packet_queue_put_private\<close>. \<open>szof\<close> is \<open>sizeof(MyAVPacketList)\<close> and \<open>alloc_ok\<close>
  says whether \<open>av_malloc\<close> returned a block. The result is the return value and the
  queue afterwards.
\<close>

definition packet_queue_put_private ::
  "int \<Rightarrow> bool \<Rightarrow> PacketQueue \<Rightarrow> pkt_ptr \<Rightarrow> int \<times> PacketQueue" where
  "packet_queue_put_private szof alloc_ok q p =
     (if abort_request q \<noteq> 0 then (- 1, q)
      else if \<not> alloc_ok then (- 1, q)
      else
        let q1 = (if p = Flush_pkt_ptr
                  then q\<lparr>PacketQueue.serial := wrap32 (PacketQueue.serial q + 1)\<rparr>
                  else q);
            pkt1 = \<lparr>pkt = deref_pkt p, serial = PacketQueue.serial q1\<rparr>
        in (0, q1\<lparr>first_pkt := first_pkt q1 @ [pkt1],
                   nb_packets := wrap32 (nb_packets q1 + 1),
                   PacketQueue.size :=
                     wrap32 (PacketQueue.size q1 + AVPacket.size (pkt pkt1) + szof),
                   PacketQueue.duration :=
                     wrap64 (PacketQueue.duration q1 + AVPacket.duration (pkt pkt1))\<rparr>))"

text \<open>
  \<open>packet_queue_put\<close>: the same under the mutex; a rejected packet other than the
  flush packet is unreferenced, which does not touch the queue.
\<close>

definition packet_queue_put ::
  "int \<Rightarrow> bool \<Rightarrow> PacketQueue \<Rightarrow> pkt_ptr \<Rightarrow> int \<times> PacketQueue" where
  "packet_queue_put szof alloc_ok q p = packet_queue_put_private szof alloc_ok q p"

definition packet_queue_put_nullpacket ::
  "int \<Rightarrow> bool \<Rightarrow> PacketQueue \<Rightarrow> int \<Rightarrow> int \<Rightarrow> int \<times> PacketQueue" where
  "packet_queue_put_nullpacket szof alloc_ok q stream_idx stale_duration =
     packet_queue_put szof alloc_ok q
       (Pkt_ptr \<lparr>data = Null_data, size = 0, stream_index = stream_idx,
                 duration = stale_duration\<rparr>)"

text \<open>Error codes: \<open>AVERROR(e)\<close> is \<open>-e\<close>, and \<open>ENOMEM\<close> is 12.\<close>

definition AVERROR_ENOMEM :: int where
  "AVERROR_ENOMEM = - 12"

text \<open>
  \<open>packet_queue_init\<close>: \<open>memset\<close> to zero, create the mutex and the condition
  variable (\<open>mutex_ok\<close>, \<open>cond_ok\<close> say whether SDL returned them), then set
  \<open>abort_request\<close>.
\<close>

definition zero_PacketQueue :: PacketQueue where
  "zero_PacketQueue =
     \<lparr>first_pkt = [], nb_packets = 0, size = 0, duration = 0, abort_request = 0,
      serial = 0\<rparr>"

definition packet_queue_init :: "bool \<Rightarrow> bool \<Rightarrow> int \<times> PacketQueue" where
  "packet_queue_init mutex_ok cond_ok =
     (if \<not> mutex_ok then (AVERROR_ENOMEM, zero_PacketQueue)
      else if \<not> cond_ok then (AVERROR_ENOMEM, zero_PacketQueue)
      else (0, zero_PacketQueue\<lparr>abort_request := 1\<rparr>))"

definition packet_queue_flush :: "PacketQueue \<Rightarrow> PacketQueue" where
  "packet_queue_flush q =
     q\<lparr>first_pkt := [], nb_packets := 0, PacketQueue.size := 0,
       PacketQueue.duration := 0\<rparr>"

definition packet_queue_abort :: "PacketQueue \<Rightarrow> PacketQueue" where
  "packet_queue_abort q = q\<lparr>abort_request := 1\<rparr>"

text \<open>\<open>packet_queue_start\<close> drops the return value of the put.\<close>

definition packet_queue_start :: "int \<Rightarrow> bool \<Rightarrow> PacketQueue \<Rightarrow> PacketQueue" where
  "packet_queue_start szof alloc_ok q =
     snd (packet_queue_put_private szof alloc_ok (q\<lparr>abort_request := 0\<rparr>) Flush_pkt_ptr)"

text \<open>
  \<open>packet_queue_get\<close>. A call either returns (the return value, the packet with
  its stamped serial when one was taken, and the queue afterwards) or, with \<open>block\<close>
  set on an empty queue that is not aborted, sits in \<open>SDL_CondWait\<close> until another
  thread changes the queue.
\<close>

datatype get_result =
  Returned int "(AVPacket \<times> int) option" PacketQueue
| Waiting

definition packet_queue_get :: "int \<Rightarrow> PacketQueue \<Rightarrow> int \<Rightarrow> get_result" where
  "packet_queue_get szof q block =
     (if abort_request q \<noteq> 0 then Returned (- 1) None q
      else
        (case first_pkt q of
           pkt1 # rest \<Rightarrow>
             Returned 1 (Some (pkt pkt1, MyAVPacketList.serial pkt1))
               (q\<lparr>first_pkt := rest,
                  nb_packets := wrap32 (nb_packets q - 1),
                  PacketQueue.size :=
                    wrap32 (PacketQueue.size q - (AVPacket.size (pkt pkt1) + szof)),
                  PacketQueue.duration :=
                    wrap64 (PacketQueue.duration q - AVPacket.duration (pkt pkt1))\<rparr>)
         | [] \<Rightarrow> if block = 0 then Returned 0 None q else Waiting))"

section \<open>Runs of queue operations\<close>

text \<open>
  A call of one of the queue's operations, with what the environment contributes to it:
  whether \<open>av_malloc\<close> succeeds for a put or a start, and the \<open>block\<close> argument of a get.
\<close>

datatype pq_call =
  Call_put pkt_ptr bool
| Call_get int
| Call_flush
| Call_abort
| Call_start bool

text \<open>
  What a run of calls did: the serials stamped on the entries that entered the queue,
  the stamps that \<open>packet_queue_get\<close> handed out with its packets, both in order, and
  the number of flush packets that entered.
\<close>

record pq_trace =
  stamped :: "int list"
  delivered :: "int list"
  flushes :: nat

definition no_trace :: pq_trace where
  "no_trace = \<lparr>stamped = [], delivered = [], flushes = 0\<rparr>"

definition stamps :: "PacketQueue \<Rightarrow> int list" where
  "stamps q = map MyAVPacketList.serial (first_pkt q)"

fun pq_step :: "int \<Rightarrow> PacketQueue \<Rightarrow> pq_call \<Rightarrow> PacketQueue \<times> pq_trace" where
  "pq_step szof q (Call_put p alloc_ok) =
     (case packet_queue_put szof alloc_ok q p of
        (r, q') \<Rightarrow>
          (q', \<lparr>stamped = (if r = 0 then [last (stamps q')] else []),
                delivered = [],
                flushes = (if r = 0 \<and> p = Flush_pkt_ptr then 1 else 0)\<rparr>))"
| "pq_step szof q (Call_get block) =
     (case packet_queue_get szof q block of
        Returned r None q' \<Rightarrow> (q', no_trace)
      | Returned r (Some (p, s)) q' \<Rightarrow> (q', \<lparr>stamped = [], delivered = [s], flushes = 0\<rparr>)
      | Waiting \<Rightarrow> (q, no_trace))"
| "pq_step szof q Call_flush = (packet_queue_flush q, no_trace)"
| "pq_step szof q Call_abort = (packet_queue_abort q, no_trace)"
| "pq_step szof q (Call_start alloc_ok) =
     (let q' = packet_queue_start szof alloc_ok q
      in (q', \<lparr>stamped = (if alloc_ok then [last (stamps q')] else []),
               delivered = [],
               flushes = (if alloc_ok then 1 else 0)\<rparr>))"

fun pq_run :: "int \<Rightarrow> PacketQueue \<Rightarrow> pq_call list \<Rightarrow> PacketQueue \<times> pq_trace" where
  "pq_run szof q [] = (q, no_trace)"
| "pq_run szof q (c # cs) =
     (case pq_step szof q c of
        (q1, t1) \<Rightarrow>
          (case pq_run szof q1 cs of
             (q2, t2) \<Rightarrow>
               (q2, \<lparr>stamped = stamped t1 @ stamped t2,
                     delivered = delivered t1 @ delivered t2,
                     flushes = flushes t1 + flushes t2\<rparr>)))"

text \<open>
  A queue is well stamped when the stamps of its entries ascend from the head and none
  exceeds the queue's serial, which is an \<open>int\<close>.
\<close>

definition well_stamped :: "PacketQueue \<Rightarrow> bool" where
  "well_stamped q \<longleftrightarrow>
     sorted (stamps q) \<and> list_all (\<lambda>s. s \<le> PacketQueue.serial q) (stamps q)
     \<and> INT_MIN \<le> PacketQueue.serial q \<and> PacketQueue.serial q \<le> INT_MAX"

section \<open>Doubles\<close>

text \<open>
  A \<open>double\<close> is either NaN or a number. Numbers are real numbers: rounding, the
  infinities and signed zeros are not modelled, so the arithmetic below is the exact
  arithmetic that the C expressions approximate. NaN propagates through the arithmetic
  and every ordered comparison with NaN is false, as in C. The operations as C rounds
  them follow further down, for the functions whose outcome depends on the rounding.
\<close>

datatype double = NaN | Fin real

instantiation double :: "{plus, minus, times, uminus, inverse, ord}"
begin

fun plus_double :: "double \<Rightarrow> double \<Rightarrow> double" where
  "plus_double (Fin a) (Fin b) = Fin (a + b)"
| "plus_double _ _ = NaN"

fun minus_double :: "double \<Rightarrow> double \<Rightarrow> double" where
  "minus_double (Fin a) (Fin b) = Fin (a - b)"
| "minus_double _ _ = NaN"

fun times_double :: "double \<Rightarrow> double \<Rightarrow> double" where
  "times_double (Fin a) (Fin b) = Fin (a * b)"
| "times_double _ _ = NaN"

fun uminus_double :: "double \<Rightarrow> double" where
  "uminus_double (Fin a) = Fin (- a)"
| "uminus_double NaN = NaN"

text \<open>Division by zero does not occur in the functions below; it is NaN here.\<close>

fun divide_double :: "double \<Rightarrow> double \<Rightarrow> double" where
  "divide_double (Fin a) (Fin b) = (if b = 0 then NaN else Fin (a / b))"
| "divide_double _ _ = NaN"

fun inverse_double :: "double \<Rightarrow> double" where
  "inverse_double (Fin a) = (if a = 0 then NaN else Fin (1 / a))"
| "inverse_double NaN = NaN"

fun less_double :: "double \<Rightarrow> double \<Rightarrow> bool" where
  "less_double (Fin a) (Fin b) = (a < b)"
| "less_double _ _ = False"

fun less_eq_double :: "double \<Rightarrow> double \<Rightarrow> bool" where
  "less_eq_double (Fin a) (Fin b) = (a \<le> b)"
| "less_eq_double _ _ = False"

instance ..

end

fun isnan :: "double \<Rightarrow> bool" where
  "isnan NaN = True"
| "isnan (Fin a) = False"

fun fabs :: "double \<Rightarrow> double" where
  "fabs (Fin a) = Fin \<bar>a\<bar>"
| "fabs NaN = NaN"

text \<open>The conversion of an integer operand to \<open>double\<close>.\<close>

definition double_of_int :: "int \<Rightarrow> double" where
  "double_of_int i = Fin (real_of_int i)"

text \<open>
  The cast \<open>(int)x\<close> truncates towards zero; it is undefined for NaN and for a value
  whose integer part does not fit an \<open>int\<close>.
\<close>

definition trunc_real :: "real \<Rightarrow> int" where
  "trunc_real x = (if 0 \<le> x then \<lfloor>x\<rfloor> else \<lceil>x\<rceil>)"

fun int_of_double :: "double \<Rightarrow> int option" where
  "int_of_double NaN = None"
| "int_of_double (Fin x) =
     (if INT_MIN \<le> trunc_real x \<and> trunc_real x \<le> INT_MAX then Some (trunc_real x)
      else None)"

text \<open>The macros \<open>FFMAX\<close> and \<open>FFMIN\<close> of libavutil, on doubles.\<close>

definition FFMAX :: "double \<Rightarrow> double \<Rightarrow> double" where
  "FFMAX a b = (if a > b then a else b)"

definition FFMIN :: "double \<Rightarrow> double \<Rightarrow> double" where
  "FFMIN a b = (if a > b then b else a)"

text \<open>\<open>av_clip\<close> of libavutil.\<close>

definition av_clip :: "int \<Rightarrow> int \<Rightarrow> int \<Rightarrow> int" where
  "av_clip a amin amax = (if a < amin then amin else if a > amax then amax else a)"

text \<open>C's integer division truncates towards zero.\<close>

definition c_div :: "int \<Rightarrow> int \<Rightarrow> int" where
  "c_div a b =
     (if (a < 0) = (b < 0) then \<bar>a\<bar> div \<bar>b\<bar> else - (\<bar>a\<bar> div \<bar>b\<bar>))"

section \<open>Clocks\<close>

text \<open>
  \<open>queue_serial\<close> of a \<open>Clock\<close> points at an \<open>int\<close>. \<open>stream_open\<close> lets the video and
  audio clocks point at the serial of their packet queue and the external clock at its
  own \<open>serial\<close> field; these are the targets modelled.
\<close>

datatype pq_name = The_videoq | The_audioq | The_subtitleq

datatype serial_ptr = Own_serial | Queue_serial pq_name

record Clock =
  pts :: double
  pts_drift :: double
  last_updated :: double
  speed :: double
  serial :: int
  paused :: int
  queue_serial :: serial_ptr

text \<open>\<open>*c->queue_serial\<close>, given the serials of the packet queues.\<close>

definition load_queue_serial :: "(pq_name \<Rightarrow> int) \<Rightarrow> Clock \<Rightarrow> int" where
  "load_queue_serial qs c =
     (case queue_serial c of Own_serial \<Rightarrow> Clock.serial c | Queue_serial n \<Rightarrow> qs n)"

text \<open>
  \<open>av_gettime_relative() / 1000000.0\<close>, for the microsecond count \<open>now\<close> that the call
  returned. Each function below takes one such count for every place where it reads
  the wall clock.
\<close>

definition seconds :: "int \<Rightarrow> double" where
  "seconds now = double_of_int now / Fin 1000000"

definition get_clock :: "(pq_name \<Rightarrow> int) \<Rightarrow> Clock \<Rightarrow> int \<Rightarrow> double" where
  "get_clock qs c now =
     (if load_queue_serial qs c \<noteq> Clock.serial c then NaN
      else if paused c \<noteq> 0 then pts c
      else
        let time = seconds now
        in pts_drift c + time - (time - last_updated c) * (Fin 1 - speed c))"

definition set_clock_at :: "Clock \<Rightarrow> double \<Rightarrow> int \<Rightarrow> double \<Rightarrow> Clock" where
  "set_clock_at c pts' serial' time =
     c\<lparr>pts := pts', last_updated := time, pts_drift := pts' - time,
       Clock.serial := serial'\<rparr>"

definition set_clock :: "Clock \<Rightarrow> double \<Rightarrow> int \<Rightarrow> int \<Rightarrow> Clock" where
  "set_clock c pts' serial' now = set_clock_at c pts' serial' (seconds now)"

definition init_clock :: "Clock \<Rightarrow> serial_ptr \<Rightarrow> int \<Rightarrow> Clock" where
  "init_clock c queue_serial' now =
     set_clock (c\<lparr>speed := Fin 1, paused := 0, queue_serial := queue_serial'\<rparr>)
       NaN (- 1) now"

definition AV_NOSYNC_THRESHOLD :: double where
  "AV_NOSYNC_THRESHOLD = Fin 10"

section \<open>The player state\<close>

text \<open>A stream pointer (\<open>AVStream *\<close>): \<open>NULL\<close> or the address of a stream.\<close>

datatype stream_ptr = Null_stream | Stream nat

record AudioParams =
  freq :: int

text \<open>
  The fields of \<open>VideoState\<close> that the functions modelled here read or write, under
  their names in the source.
\<close>

record VideoState =
  paused :: int
  queue_attachments_req :: int
  seek_req :: int
  seek_flags :: int
  seek_pos :: int
  seek_rel :: int
  read_pause_return :: int
  audclk :: Clock
  vidclk :: Clock
  extclk :: Clock
  audio_stream :: int
  av_sync_type :: int
  audio_diff_cum :: double
  audio_diff_avg_coef :: double
  audio_diff_threshold :: double
  audio_diff_avg_count :: int
  audio_st :: stream_ptr
  audioq :: PacketQueue
  audio_volume :: int
  audio_src :: AudioParams
  subtitle_stream :: int
  subtitleq :: PacketQueue
  frame_timer :: double
  video_stream :: int
  video_st :: stream_ptr
  videoq :: PacketQueue
  max_frame_duration :: double
  eof :: int
  step :: int

text \<open>The serials that the clocks of a player state point at.\<close>

definition queue_serials :: "VideoState \<Rightarrow> pq_name \<Rightarrow> int" where
  "queue_serials is n =
     (case n of
        The_videoq \<Rightarrow> PacketQueue.serial (videoq is)
      | The_audioq \<Rightarrow> PacketQueue.serial (audioq is)
      | The_subtitleq \<Rightarrow> PacketQueue.serial (subtitleq is))"

section \<open>Master clock\<close>

definition AV_SYNC_AUDIO_MASTER :: int where
  "AV_SYNC_AUDIO_MASTER = 0"

definition AV_SYNC_VIDEO_MASTER :: int where
  "AV_SYNC_VIDEO_MASTER = 1"

definition AV_SYNC_EXTERNAL_CLOCK :: int where
  "AV_SYNC_EXTERNAL_CLOCK = 2"

definition get_master_sync_type :: "VideoState \<Rightarrow> int" where
  "get_master_sync_type is =
     (if av_sync_type is = AV_SYNC_VIDEO_MASTER then
        (if video_st is \<noteq> Null_stream then AV_SYNC_VIDEO_MASTER
         else AV_SYNC_AUDIO_MASTER)
      else if av_sync_type is = AV_SYNC_AUDIO_MASTER then
        (if audio_st is \<noteq> Null_stream then AV_SYNC_AUDIO_MASTER
         else AV_SYNC_EXTERNAL_CLOCK)
      else AV_SYNC_EXTERNAL_CLOCK)"

definition get_master_clock :: "VideoState \<Rightarrow> int \<Rightarrow> double" where
  "get_master_clock is now =
     (if get_master_sync_type is = AV_SYNC_VIDEO_MASTER
        then get_clock (queue_serials is) (vidclk is) now
      else if get_master_sync_type is = AV_SYNC_AUDIO_MASTER
        then get_clock (queue_serials is) (audclk is) now
      else get_clock (queue_serials is) (extclk is) now)"

text \<open>
  The selection as the specification words it: AUDIO when configured and an audio stream
  is present, else VIDEO when configured and a video stream is present, else EXTERNAL.
\<close>

definition spec_master_sync_type :: "int \<Rightarrow> bool \<Rightarrow> bool \<Rightarrow> int" where
  "spec_master_sync_type configured audio_present video_present =
     (if configured = AV_SYNC_AUDIO_MASTER \<and> audio_present then AV_SYNC_AUDIO_MASTER
      else if configured = AV_SYNC_VIDEO_MASTER \<and> video_present then AV_SYNC_VIDEO_MASTER
      else AV_SYNC_EXTERNAL_CLOCK)"

section \<open>Pause, step and seek\<close>

text \<open>\<open>AVERROR(ENOSYS)\<close>: \<open>ENOSYS\<close> is 38.\<close>

definition AVERROR_ENOSYS :: int where
  "AVERROR_ENOSYS = - 38"

text \<open>
  The wall clock readings of one \<open>stream_toggle_pause\<close>, one for each call of
  \<open>av_gettime_relative\<close> in the order of the source.
\<close>

record pause_reads =
  now_frame_timer :: int
  now_vidclk_get :: int
  now_vidclk_set :: int
  now_extclk_get :: int
  now_extclk_set :: int

definition stream_toggle_pause :: "VideoState \<Rightarrow> pause_reads \<Rightarrow> VideoState" where
  "stream_toggle_pause is r =
     (let is1 =
            (if paused is \<noteq> 0 then
               let isa = is\<lparr>frame_timer :=
                              frame_timer is
                                + (seconds (now_frame_timer r) - last_updated (vidclk is))\<rparr>;
                   isb = (if read_pause_return isa \<noteq> AVERROR_ENOSYS
                          then isa\<lparr>vidclk := (vidclk isa)\<lparr>Clock.paused := 0\<rparr>\<rparr>
                          else isa)
               in isb\<lparr>vidclk :=
                        set_clock (vidclk isb)
                          (get_clock (queue_serials isb) (vidclk isb) (now_vidclk_get r))
                          (Clock.serial (vidclk isb)) (now_vidclk_set r)\<rparr>
             else is);
          is2 = is1\<lparr>extclk :=
                      set_clock (extclk is1)
                        (get_clock (queue_serials is1) (extclk is1) (now_extclk_get r))
                        (Clock.serial (extclk is1)) (now_extclk_set r)\<rparr>;
          np = (if VideoState.paused is2 \<noteq> 0 then 0 else 1)
      in is2\<lparr>extclk := (extclk is2)\<lparr>Clock.paused := np\<rparr>,
             vidclk := (vidclk is2)\<lparr>Clock.paused := np\<rparr>,
             audclk := (audclk is2)\<lparr>Clock.paused := np\<rparr>,
             VideoState.paused := np\<rparr>)"

definition step_to_next_frame :: "VideoState \<Rightarrow> pause_reads \<Rightarrow> VideoState" where
  "step_to_next_frame is r =
     (let is1 = (if VideoState.paused is \<noteq> 0 then stream_toggle_pause is r else is)
      in is1\<lparr>step := 1\<rparr>)"

text \<open>Constants of libavformat and libavutil used by the seek.\<close>

definition AVSEEK_FLAG_BYTE :: int where
  "AVSEEK_FLAG_BYTE = 2"

definition AV_TIME_BASE :: int where
  "AV_TIME_BASE = 1000000"

text \<open>
  What the world outside the player state answers during one
  \<open>read_thread_loop_handle_seek\<close>: the container's \<open>avformat_seek_file\<close> as a function
  of stream index, minimum, target, maximum and flags; the URL of the input; whether
  \<open>av_malloc\<close> succeeds in each of the three puts; \<open>sizeof(MyAVPacketList)\<close>; and the
  wall clock readings.
\<close>

record seek_world =
  avformat_seek_file :: "int \<Rightarrow> int \<Rightarrow> int \<Rightarrow> int \<Rightarrow> int \<Rightarrow> int"
  url :: string
  alloc_audioq :: bool
  alloc_subtitleq :: bool
  alloc_videoq :: bool
  sizeof_MyAVPacketList :: int
  now_seek_set :: int
  step_reads :: pause_reads

definition seek_min :: "VideoState \<Rightarrow> int" where
  "seek_min is =
     (if seek_rel is > 0 then wrap64 (wrap64 (seek_pos is - seek_rel is) + 2)
      else INT64_MIN)"

definition seek_max :: "VideoState \<Rightarrow> int" where
  "seek_max is =
     (if seek_rel is < 0 then wrap64 (wrap64 (seek_pos is - seek_rel is) - 2)
      else INT64_MAX)"

text \<open>The return value of the call of \<open>avformat_seek_file\<close>.\<close>

definition seek_ret :: "seek_world \<Rightarrow> VideoState \<Rightarrow> int" where
  "seek_ret w is =
     avformat_seek_file w (- 1) (seek_min is) (seek_pos is) (seek_max is) (seek_flags is)"

text \<open>The part of the seek that runs when the container accepted it.\<close>

definition seek_succeeded :: "seek_world \<Rightarrow> VideoState \<Rightarrow> VideoState" where
  "seek_succeeded w is =
     (let isa = (if audio_stream is \<ge> 0
                 then is\<lparr>audioq :=
                           snd (packet_queue_put (sizeof_MyAVPacketList w) (alloc_audioq w)
                                  (packet_queue_flush (audioq is)) Flush_pkt_ptr)\<rparr>
                 else is);
          iss = (if subtitle_stream isa \<ge> 0
                 then isa\<lparr>subtitleq :=
                            snd (packet_queue_put (sizeof_MyAVPacketList w) (alloc_subtitleq w)
                                   (packet_queue_flush (subtitleq isa)) Flush_pkt_ptr)\<rparr>
                 else isa);
          isv = (if video_stream iss \<ge> 0
                 then iss\<lparr>videoq :=
                            snd (packet_queue_put (sizeof_MyAVPacketList w) (alloc_videoq w)
                                   (packet_queue_flush (videoq iss)) Flush_pkt_ptr)\<rparr>
                 else iss)
      in if and (seek_flags isv) AVSEEK_FLAG_BYTE \<noteq> 0
         then isv\<lparr>extclk := set_clock (extclk isv) NaN 0 (now_seek_set w)\<rparr>
         else isv\<lparr>extclk :=
                    set_clock (extclk isv)
                      (double_of_int (seek_pos isv) / double_of_int AV_TIME_BASE) 0
                      (now_seek_set w)\<rparr>)"

text \<open>
  \<open>read_thread_loop_handle_seek\<close>: the return value, the state afterwards and the
  lines written to the log at level \<open>AV_LOG_ERROR\<close>.
\<close>

definition read_thread_loop_handle_seek ::
  "seek_world \<Rightarrow> VideoState \<Rightarrow> int \<times> VideoState \<times> string list" where
  "read_thread_loop_handle_seek w is =
     (if seek_req is \<noteq> 0 then
        let ret = seek_ret w is;
            (is1, logged) =
              (if ret < 0 then (is, [url w @ '': error while seeking'' @ [CHR 0x0A]])
               else (seek_succeeded w is, []));
            is2 = is1\<lparr>seek_req := 0, queue_attachments_req := 1, eof := 0\<rparr>;
            is3 = (if VideoState.paused is2 \<noteq> 0
                   then step_to_next_frame is2 (step_reads w) else is2)
        in (0, is3, logged)
      else (0, is, []))"

section \<open>Volume\<close>

text \<open>
  \<open>log\<close> and \<open>pow\<close> of the C library on the model's doubles. \<open>log\<close> of a negative
  number is NaN; \<open>log(0)\<close> is minus infinity in C, which the model does not have, and
  \<open>update_volume\<close> never asks for it. \<open>pow\<close> is only called with the base 10.
\<close>

fun c_log :: "double \<Rightarrow> double" where
  "c_log (Fin x) = (if 0 < x then Fin (ln x) else NaN)"
| "c_log NaN = NaN"

fun c_pow :: "double \<Rightarrow> double \<Rightarrow> double" where
  "c_pow (Fin b) (Fin e) = (if 0 < b then Fin (b powr e) else NaN)"
| "c_pow _ _ = NaN"

text \<open>
  \<open>lrint\<close> rounds to the nearest integer, a tie to the even neighbour (the default
  rounding mode); it has no result for NaN or outside the range of \<open>long\<close>.
\<close>

definition rint :: "real \<Rightarrow> int" where
  "rint x =
     (let f = \<lfloor>x\<rfloor>; d = x - real_of_int f
      in if d < 1 / 2 then f
         else if d > 1 / 2 then f + 1
         else if even f then f else f + 1)"

fun lrint :: "double \<Rightarrow> int option" where
  "lrint NaN = None"
| "lrint (Fin x) =
     (if INT64_MIN \<le> rint x \<and> rint x \<le> INT64_MAX then Some (rint x) else None)"

definition SDL_VOLUME_STEP :: double where
  "SDL_VOLUME_STEP = Fin (75 / 100)"

text \<open>
  The first two lines of \<open>update_volume\<close>: the volume that the logarithmic step gives,
  for the current volume \<open>v\<close>. \<open>maxvol\<close> is SDL's constant \<open>SDL_MIX_MAXVOLUME\<close>, which
  the source takes from the SDL headers.
\<close>

definition new_volume :: "int \<Rightarrow> int \<Rightarrow> int \<Rightarrow> double \<Rightarrow> int option" where
  "new_volume maxvol v sign step' =
     (let volume_level =
            (if v \<noteq> 0
             then Fin 20 * c_log (double_of_int v / double_of_int maxvol) / c_log (Fin 10)
             else Fin (- 1000))
      in map_option wrap32
           (lrint (double_of_int maxvol
                     * c_pow (Fin 10) ((volume_level + double_of_int sign * step') / Fin 20))))"

definition update_volume ::
  "int \<Rightarrow> VideoState \<Rightarrow> int \<Rightarrow> double \<Rightarrow> VideoState option" where
  "update_volume maxvol is sign step' =
     (case new_volume maxvol (audio_volume is) sign step' of
        None \<Rightarrow> None
      | Some nv \<Rightarrow>
          Some (is\<lparr>audio_volume :=
                      av_clip (if audio_volume is = nv
                               then wrap32 (audio_volume is + sign) else nv)
                        0 maxvol\<rparr>))"

section \<open>Double arithmetic with rounding\<close>

text \<open>
  The functions of the remaining sections compare, add and truncate the results of
  double arithmetic, where the rounding of each operation decides the outcome. There
  the arithmetic is IEEE 754 binary64 in the default rounding mode: every operation
  returns the double nearest to the exact result, a tie going to the neighbour with the
  even significand. Each operation is rounded on its own (no extended precision, no fused
  multiply-add).

  \<open>fl\<close> is that rounding on the reals. The doubles next to \<open>x\<close> are the multiples of
  \<open>quantum x\<close>, which is \<open>2 ^ (e - 52)\<close> for \<open>2 ^ e \<le> |x| < 2 ^ (e + 1)\<close> and
  \<open>2 ^ (- 1074)\<close> for \<open>|x| < 2 ^ (- 1021)\<close> (the smallest normal numbers and the
  subnormal numbers). The exponent is not bounded above: there are no infinities, so a
  result beyond the largest double is not what the program computes. \<open>plain x\<close> says
  that \<open>x\<close> is a double of magnitude at most \<open>2 ^ 300\<close>; on such operands none of the
  expressions below leaves the range of double.
\<close>

definition binade :: "real \<Rightarrow> int" where
  "binade x = \<lfloor>log 2 \<bar>x\<bar>\<rfloor>"

definition quantum :: "real \<Rightarrow> real" where
  "quantum x = 2 powr real_of_int (max (binade x) (- 1022) - 52)"

definition fl :: "real \<Rightarrow> real" where
  "fl x = (if x = 0 then 0 else real_of_int (rint (x / quantum x)) * quantum x)"

definition plain :: "real \<Rightarrow> bool" where
  "plain x \<longleftrightarrow> fl x = x \<and> \<bar>x\<bar> \<le> 2 ^ 300"

fun plain_double :: "double \<Rightarrow> bool" where
  "plain_double NaN = True"
| "plain_double (Fin x) = plain x"

text \<open>
  The operators \<open>+\<close>, \<open>-\<close>, \<open>*\<close> and \<open>/\<close> of C on doubles. The only divisor below is
  \<open>1000000.0\<close>; a division by zero is NaN here.
\<close>

fun add_d :: "double \<Rightarrow> double \<Rightarrow> double" where
  "add_d (Fin a) (Fin b) = Fin (fl (a + b))"
| "add_d _ _ = NaN"

fun sub_d :: "double \<Rightarrow> double \<Rightarrow> double" where
  "sub_d (Fin a) (Fin b) = Fin (fl (a - b))"
| "sub_d _ _ = NaN"

fun mul_d :: "double \<Rightarrow> double \<Rightarrow> double" where
  "mul_d (Fin a) (Fin b) = Fin (fl (a * b))"
| "mul_d _ _ = NaN"

fun div_d :: "double \<Rightarrow> double \<Rightarrow> double" where
  "div_d (Fin a) (Fin b) = (if b = 0 then NaN else Fin (fl (a / b)))"
| "div_d _ _ = NaN"

text \<open>
  The conversion of an \<open>int64_t\<close> operand to \<open>double\<close> rounds (an \<open>int\<close> operand is
  a double as it is, see \<open>double_of_int\<close>).
\<close>

definition double_of_int64 :: "int \<Rightarrow> double" where
  "double_of_int64 i = Fin (fl (real_of_int i))"

section \<open>Clocks in double arithmetic\<close>

text \<open>
  \<open>av_gettime_relative() / 1000000.0\<close>, \<open>get_clock\<close>, \<open>set_clock_at\<close> and \<open>set_clock\<close>
  once more, with the operations of C on doubles in the place of the exact ones. The
  unary minus, \<open>fabs\<close>, the comparisons and the stores are exact in C as well.
\<close>

definition seconds_fl :: "int \<Rightarrow> double" where
  "seconds_fl now = div_d (double_of_int64 now) (Fin 1000000)"

definition get_clock_fl :: "(pq_name \<Rightarrow> int) \<Rightarrow> Clock \<Rightarrow> int \<Rightarrow> double" where
  "get_clock_fl qs c now =
     (if load_queue_serial qs c \<noteq> Clock.serial c then NaN
      else if Clock.paused c \<noteq> 0 then pts c
      else
        let time = seconds_fl now
        in sub_d (add_d (pts_drift c) time)
             (mul_d (sub_d time (last_updated c)) (sub_d (Fin 1) (speed c))))"

definition set_clock_at_fl :: "Clock \<Rightarrow> double \<Rightarrow> int \<Rightarrow> double \<Rightarrow> Clock" where
  "set_clock_at_fl c pts' serial' time =
     c\<lparr>pts := pts', last_updated := time, pts_drift := sub_d pts' time,
       Clock.serial := serial'\<rparr>"

definition set_clock_fl :: "Clock \<Rightarrow> double \<Rightarrow> int \<Rightarrow> int \<Rightarrow> Clock" where
  "set_clock_fl c pts' serial' now = set_clock_at_fl c pts' serial' (seconds_fl now)"

text \<open>
  \<open>set_clock_speed\<close> reads the wall clock twice: in \<open>get_clock\<close> (\<open>now_get\<close>) and then
  in \<open>set_clock\<close> (\<open>now_set\<close>).
\<close>

definition set_clock_speed ::
  "(pq_name \<Rightarrow> int) \<Rightarrow> Clock \<Rightarrow> double \<Rightarrow> int \<Rightarrow> int \<Rightarrow> Clock" where
  "set_clock_speed qs c speed' now_get now_set =
     (set_clock_fl c (get_clock_fl qs c now_get) (Clock.serial c) now_set)\<lparr>speed := speed'\<rparr>"

text \<open>
  \<open>sync_clock_to_slave\<close> reads the wall clock three times: in the two \<open>get_clock\<close> calls
  and in \<open>set_clock\<close>.
\<close>

definition sync_clock_to_slave ::
  "(pq_name \<Rightarrow> int) \<Rightarrow> Clock \<Rightarrow> Clock \<Rightarrow> int \<Rightarrow> int \<Rightarrow> int \<Rightarrow> Clock" where
  "sync_clock_to_slave qs c slave now_c now_slave now_set =
     (let clock = get_clock_fl qs c now_c;
          slave_clock = get_clock_fl qs slave now_slave
      in if \<not> isnan slave_clock
            \<and> (isnan clock \<or> fabs (sub_d clock slave_clock) > AV_NOSYNC_THRESHOLD)
         then set_clock_fl c slave_clock (Clock.serial slave) now_set
         else c)"

definition get_master_clock_fl :: "VideoState \<Rightarrow> int \<Rightarrow> double" where
  "get_master_clock_fl is now =
     (if get_master_sync_type is = AV_SYNC_VIDEO_MASTER
        then get_clock_fl (queue_serials is) (vidclk is) now
      else if get_master_sync_type is = AV_SYNC_AUDIO_MASTER
        then get_clock_fl (queue_serials is) (audclk is) now
      else get_clock_fl (queue_serials is) (extclk is) now)"

text \<open>A clock, and the three clocks of a player state, whose double fields are plain or NaN.\<close>

definition plain_clock :: "Clock \<Rightarrow> bool" where
  "plain_clock c \<longleftrightarrow>
     plain_double (pts c) \<and> plain_double (pts_drift c) \<and> plain_double (last_updated c)
     \<and> plain_double (speed c)"

definition plain_clocks :: "VideoState \<Rightarrow> bool" where
  "plain_clocks is \<longleftrightarrow>
     plain_clock (audclk is) \<and> plain_clock (vidclk is) \<and> plain_clock (extclk is)"

section \<open>Video target delay\<close>

text \<open>
  The literals \<open>0.04\<close> and \<open>0.1\<close> of the source are the doubles nearest to \<open>4 / 100\<close>
  and \<open>1 / 10\<close>.
\<close>

definition AV_SYNC_THRESHOLD_MIN :: double where
  "AV_SYNC_THRESHOLD_MIN = Fin (fl (4 / 100))"

definition AV_SYNC_THRESHOLD_MAX :: double where
  "AV_SYNC_THRESHOLD_MAX = Fin (fl (1 / 10))"

definition AV_SYNC_FRAMEDUP_THRESHOLD :: double where
  "AV_SYNC_FRAMEDUP_THRESHOLD = Fin (fl (1 / 10))"

text \<open>
  \<open>compute_target_delay\<close>; the trace message is left out. \<open>now_vid\<close> and \<open>now_master\<close>
  are the wall clock readings of the two \<open>get_clock\<close> calls.
\<close>

definition compute_target_delay :: "double \<Rightarrow> VideoState \<Rightarrow> int \<Rightarrow> int \<Rightarrow> double" where
  "compute_target_delay delay is now_vid now_master =
     (if get_master_sync_type is \<noteq> AV_SYNC_VIDEO_MASTER then
        let diff = sub_d (get_clock_fl (queue_serials is) (vidclk is) now_vid)
                     (get_master_clock_fl is now_master);
            sync_threshold = FFMAX AV_SYNC_THRESHOLD_MIN (FFMIN AV_SYNC_THRESHOLD_MAX delay)
        in if \<not> isnan diff \<and> fabs diff < max_frame_duration is then
             (if diff \<le> - sync_threshold then FFMAX (Fin 0) (add_d delay diff)
              else if diff \<ge> sync_threshold \<and> delay > AV_SYNC_FRAMEDUP_THRESHOLD
                then add_d delay diff
              else if diff \<ge> sync_threshold then mul_d (Fin 2) delay
              else delay)
           else delay
      else delay)"

text \<open>
  The delay as the specification words it, for numbers \<open>delay\<close>, \<open>diff\<close> and
  \<open>max_frame_duration\<close> and video not being the master.
\<close>

definition spec_target_delay :: "real \<Rightarrow> real \<Rightarrow> real \<Rightarrow> real" where
  "spec_target_delay delay diff max_dur =
     (let threshold = max (4 / 100) (min (1 / 10) delay)
      in if \<bar>diff\<bar> > max_dur then delay
         else if diff \<le> - threshold then max 0 (delay + diff)
         else if diff \<ge> threshold \<and> delay > 1 / 10 then delay + diff
         else if diff \<ge> threshold \<and> delay \<le> 1 / 10 then 2 * delay
         else delay)"

section \<open>Audio sample compensation\<close>

definition SAMPLE_CORRECTION_PERCENT_MAX :: int where
  "SAMPLE_CORRECTION_PERCENT_MAX = 10"

definition AUDIO_DIFF_AVG_NB :: int where
  "AUDIO_DIFF_AVG_NB = 20"

text \<open>
  \<open>synchronize_audio\<close> returns the wanted number of samples and the state with the
  updated filter; the log messages are left out. The result is \<open>None\<close> where the cast
  \<open>(int)(diff * freq)\<close> is undefined.
\<close>

definition synchronize_audio ::
  "VideoState \<Rightarrow> int \<Rightarrow> int \<Rightarrow> int \<Rightarrow> (int \<times> VideoState) option" where
  "synchronize_audio is nb_samples now_aud now_master =
     (if get_master_sync_type is \<noteq> AV_SYNC_AUDIO_MASTER then
        let diff = sub_d (get_clock_fl (queue_serials is) (audclk is) now_aud)
                     (get_master_clock_fl is now_master)
        in if \<not> isnan diff \<and> fabs diff < AV_NOSYNC_THRESHOLD then
             let is1 = is\<lparr>audio_diff_cum :=
                            add_d diff (mul_d (audio_diff_avg_coef is) (audio_diff_cum is))\<rparr>
             in if audio_diff_avg_count is1 < AUDIO_DIFF_AVG_NB then
                  Some (nb_samples,
                        is1\<lparr>audio_diff_avg_count := wrap32 (audio_diff_avg_count is1 + 1)\<rparr>)
                else
                  let avg_diff = mul_d (audio_diff_cum is1)
                                   (sub_d (Fin 1) (audio_diff_avg_coef is1))
                  in if fabs avg_diff \<ge> audio_diff_threshold is1 then
                       (case int_of_double
                               (mul_d diff (double_of_int (freq (audio_src is1)))) of
                          None \<Rightarrow> None
                        | Some k \<Rightarrow>
                            let wanted_nb_samples = wrap32 (nb_samples + k);
                                min_nb_samples =
                                  c_div (wrap32 (nb_samples
                                                  * (100 - SAMPLE_CORRECTION_PERCENT_MAX))) 100;
                                max_nb_samples =
                                  c_div (wrap32 (nb_samples
                                                  * (100 + SAMPLE_CORRECTION_PERCENT_MAX))) 100
                            in Some (av_clip wanted_nb_samples min_nb_samples max_nb_samples,
                                     is1))
                     else Some (nb_samples, is1)
           else Some (nb_samples, is\<lparr>audio_diff_avg_count := 0, audio_diff_cum := Fin 0\<rparr>)
      else Some (nb_samples, is))"

text \<open>
  The target sample count as the specification words it:
  \<open>clip(n + round(diff * src_rate), 0.9 n, 1.1 n)\<close>, on real numbers.
\<close>

definition spec_wanted_nb_samples :: "int \<Rightarrow> real \<Rightarrow> int \<Rightarrow> real" where
  "spec_wanted_nb_samples n diff src_rate =
     max (9 / 10 * real_of_int n)
       (min (11 / 10 * real_of_int n)
          (real_of_int (n + round (diff * real_of_int src_rate))))"


section \<open>Auxiliary notions and sample inputs\<close>

text \<open>
  \<open>b\<close> bounds a queue from below when none of its stamps and not its serial is below
  \<open>b\<close>.
\<close>

definition lower_bound :: "int \<Rightarrow> PacketQueue \<Rightarrow> bool" where
  "lower_bound b q \<longleftrightarrow> list_all (\<lambda>s. b \<le> s) (stamps q) \<and> b \<le> PacketQueue.serial q"

text \<open>A queue as \<open>packet_queue_init\<close> leaves it, a packet, and a run of calls.\<close>

definition fresh_queue :: PacketQueue where
  "fresh_queue = snd (packet_queue_init True True)"

definition example_pkt :: AVPacket where
  "example_pkt = \<lparr>data = Buffer 1, size = 100, stream_index = 0, duration = 40\<rparr>"

definition stale_calls :: "pq_call list" where
  "stale_calls =
     [Call_start True, Call_get 0, Call_put (Pkt_ptr example_pkt) True,
      Call_put Flush_pkt_ptr True]"

text \<open>Clocks: one that is held (paused) at a value, and the queue serials all at \<open>k\<close>.\<close>

definition held_clock :: "real \<Rightarrow> serial_ptr \<Rightarrow> Clock" where
  "held_clock p ptr =
     \<lparr>pts = Fin p, pts_drift = Fin (p - 1), last_updated = Fin 1, speed = Fin 1, serial = 1,
      paused = 1, queue_serial = ptr\<rparr>"

definition serials_at :: "int \<Rightarrow> pq_name \<Rightarrow> int" where
  "serials_at k n = k"

definition stale_clock :: Clock where
  "stale_clock =
     \<lparr>pts = Fin 5, pts_drift = Fin 0, last_updated = Fin 5, speed = Fin 1, serial = 1,
      paused = 1, queue_serial = Queue_serial The_videoq\<rparr>"

definition running_clock :: Clock where
  "running_clock =
     \<lparr>pts = Fin 5, pts_drift = Fin 3, last_updated = Fin 2, speed = Fin (1 / 2), serial = 1,
      paused = 0, queue_serial = Own_serial\<rparr>"

text \<open>The external clock as \<open>stream_open\<close> initialises it.\<close>

definition unset_clock :: Clock where
  "unset_clock = init_clock stale_clock Own_serial 1000000"

text \<open>
  A player state with an audio and a video stream, synchronising to the external clock,
  with a seek request pending; and a world in which the container refuses the seek.
\<close>

definition started_queue :: PacketQueue where
  "started_queue = packet_queue_start 104 True (snd (packet_queue_init True True))"

definition sample_state :: VideoState where
  "sample_state =
     \<lparr>paused = 0, queue_attachments_req = 0, seek_req = 1, seek_flags = 0,
      seek_pos = 30000000, seek_rel = 10000000, read_pause_return = 0,
      audclk = held_clock (10 + 63 / 5000) (Queue_serial The_audioq),
      vidclk = held_clock 0 (Queue_serial The_videoq),
      extclk = held_clock 10 Own_serial,
      audio_stream = 0, av_sync_type = AV_SYNC_EXTERNAL_CLOCK,
      audio_diff_cum = Fin 0, audio_diff_avg_coef = Fin (4 / 5),
      audio_diff_threshold = Fin (1 / 1000), audio_diff_avg_count = 20,
      audio_st = Stream 1, audioq = started_queue, audio_volume = 64,
      audio_src = \<lparr>freq = 1000\<rparr>,
      subtitle_stream = - 1, subtitleq = snd (packet_queue_init True True),
      frame_timer = Fin 0, video_stream = 1, video_st = Stream 2, videoq = started_queue,
      max_frame_duration = Fin 10, eof = 1, step = 0\<rparr>"

definition failing_world :: seek_world where
  "failing_world =
     \<lparr>avformat_seek_file = (\<lambda>stream_index min_ts ts max_ts flags. - 1),
      url = ''movie.mkv'', alloc_audioq = True, alloc_subtitleq = True, alloc_videoq = True,
      sizeof_MyAVPacketList = 104, now_seek_set = 5000000,
      step_reads = \<lparr>now_frame_timer = 5000000, now_vidclk_get = 5000000,
                     now_vidclk_set = 5000000, now_extclk_get = 5000000,
                     now_extclk_set = 5000000\<rparr>\<rparr>"

text \<open>
  A player state like \<open>sample_state\<close> whose numbers are doubles: the audio clock is held
  at \<open>10 + 51 / 4096\<close>, the filter coefficient is \<open>1 / 2\<close>, the threshold
  \<open>1 / 1024\<close> and the source rate 1024 Hz.
\<close>

definition dyadic_state :: VideoState where
  "dyadic_state =
     sample_state\<lparr>audclk := held_clock (10 + 51 / 4096) (Queue_serial The_audioq),
                   audio_diff_avg_coef := Fin (1 / 2),
                   audio_diff_threshold := Fin (1 / 1024),
                   audio_src := \<lparr>freq = 1024\<rparr>\<rparr>"

text \<open>
  A clock at half speed that was stamped \<open>2 ^ (- 18)\<close> seconds before the wall clock
  showed \<open>2 ^ 35\<close> seconds, and that wall clock reading in microseconds.
\<close>

definition drifting_clock :: Clock where
  "drifting_clock =
     \<lparr>pts = Fin 0, pts_drift = Fin (- 34359738368),
      last_updated = Fin (34359738368 - 1 / 262144), speed = Fin (1 / 2), serial = 1,
      paused = 0, queue_serial = Own_serial\<rparr>"

definition late_now :: int where
  "late_now = 34359738368000000"


section \<open>A freshly initialised queue\<close>

lemma aborted_puts_rejected:
  "abort_request q \<noteq> 0 \<Longrightarrow>
   pq_run szof q (map (\<lambda>(p, alloc_ok). Call_put p alloc_ok) ps) = (q, no_trace)"
  by (induction ps)
    (auto simp: packet_queue_put_def packet_queue_put_private_def no_trace_def)

text \<open>
  C9. When \<open>packet_queue_init\<close> succeeds (SDL hands out the mutex and the condition
  variable) the queue is empty, its serial is 0 and \<open>abort_request\<close> is set. On that
  queue every put, whatever the packet and whether or not memory is available, returns
  \<open>-1\<close> and leaves the queue as it was, so a run of any number of puts enqueues
  nothing; a get returns \<open>-1\<close> as well. \<open>packet_queue_start\<close> (with \<open>av_malloc\<close> succeeding)
  clears the flag and enqueues the flush packet alone, stamped 1, the serial going from
  0 to 1.
\<close>

theorem fresh_queue_aborted_until_start:
  "fst (packet_queue_init True True) = 0
   \<and> abort_request (snd (packet_queue_init True True)) = 1
   \<and> PacketQueue.serial (snd (packet_queue_init True True)) = 0
   \<and> first_pkt (snd (packet_queue_init True True)) = []
   \<and> packet_queue_put szof alloc_ok (snd (packet_queue_init True True)) p
       = (- 1, snd (packet_queue_init True True))
   \<and> packet_queue_put_private szof alloc_ok (snd (packet_queue_init True True)) p
       = (- 1, snd (packet_queue_init True True))
   \<and> pq_run szof (snd (packet_queue_init True True))
         (map (\<lambda>(p, alloc_ok). Call_put p alloc_ok) ps)
       = (snd (packet_queue_init True True), no_trace)
   \<and> packet_queue_get szof (snd (packet_queue_init True True)) block
       = Returned (- 1) None (snd (packet_queue_init True True))
   \<and> abort_request (packet_queue_start szof True (snd (packet_queue_init True True))) = 0
   \<and> PacketQueue.serial (packet_queue_start szof True (snd (packet_queue_init True True))) = 1
   \<and> first_pkt (packet_queue_start szof True (snd (packet_queue_init True True)))
       = [\<lparr>pkt = flush_pkt, serial = 1\<rparr>]
   \<and> nb_packets (packet_queue_start szof True (snd (packet_queue_init True True))) = 1"
proof -
  have "abort_request (snd (packet_queue_init True True)) \<noteq> 0"
    by (simp add: packet_queue_init_def)
  from aborted_puts_rejected[OF this]
  have "pq_run szof (snd (packet_queue_init True True))
          (map (\<lambda>(p, alloc_ok). Call_put p alloc_ok) ps)
        = (snd (packet_queue_init True True), no_trace)" .
  then show ?thesis
    by (simp add: packet_queue_init_def zero_PacketQueue_def packet_queue_put_def
        packet_queue_put_private_def packet_queue_get_def packet_queue_start_def
        wrap32_def Let_def)
qed

section \<open>Serial stamps of the packet queue\<close>

lemma wrap32_id: "INT_MIN \<le> x \<Longrightarrow> x \<le> INT_MAX \<Longrightarrow> wrap32 x = x"
  by (simp add: wrap32_def INT_MIN_def INT_MAX_def)

lemma put_private_cases:
  "packet_queue_put_private szof a q p =
     (if abort_request q \<noteq> 0 \<or> \<not> a then (- 1, q)
      else (0, q\<lparr>first_pkt := first_pkt q @
                    [\<lparr>pkt = deref_pkt p,
                      serial = (if p = Flush_pkt_ptr then wrap32 (PacketQueue.serial q + 1)
                                else PacketQueue.serial q)\<rparr>],
                  nb_packets := wrap32 (nb_packets q + 1),
                  PacketQueue.size :=
                    wrap32 (PacketQueue.size q + AVPacket.size (deref_pkt p) + szof),
                  PacketQueue.duration :=
                    wrap64 (PacketQueue.duration q + AVPacket.duration (deref_pkt p)),
                  PacketQueue.serial :=
                    (if p = Flush_pkt_ptr then wrap32 (PacketQueue.serial q + 1)
                     else PacketQueue.serial q)\<rparr>))"
  by (simp add: packet_queue_put_private_def Let_def)

lemma sorted_snoc_le:
  "sorted xs \<Longrightarrow> list_all (\<lambda>s. s \<le> (y::int)) xs \<Longrightarrow> sorted (xs @ [y])"
  by (simp add: sorted_append list_all_iff)

lemma list_all_mono_le:
  "list_all (\<lambda>s. s \<le> (x::int)) xs \<Longrightarrow> x \<le> y \<Longrightarrow> list_all (\<lambda>s. s \<le> y) xs"
  by (induction xs) auto

lemma pq_step_put:
  assumes "well_stamped q" "lower_bound b q" "pq_step szof q (Call_put p a) = (q', t)"
    "PacketQueue.serial q + int (flushes t) \<le> INT_MAX"
  shows "well_stamped q' \<and> lower_bound b q'
    \<and> PacketQueue.serial q' = PacketQueue.serial q + int (flushes t)
    \<and> list_all (\<lambda>s. s = PacketQueue.serial q') (stamped t)
    \<and> delivered t = []"
proof (cases "abort_request q \<noteq> 0 \<or> \<not> a")
  case True
  then have "q' = q" "t = \<lparr>stamped = [], delivered = [], flushes = 0\<rparr>"
    using assms(3) by (auto simp: packet_queue_put_def put_private_cases)
  then show ?thesis using assms(1,2) by simp
next
  case False
  show ?thesis
  proof (cases "p = Flush_pkt_ptr")
    case True
    have fl: "flushes t = 1"
      using assms(3) False True by (auto simp: packet_queue_put_def put_private_cases)
    have w: "wrap32 (PacketQueue.serial q + 1) = PacketQueue.serial q + 1"
      using assms(1,4) fl by (intro wrap32_id) (auto simp: well_stamped_def)
    have q': "stamps q' = stamps q @ [PacketQueue.serial q + 1]"
      "PacketQueue.serial q' = PacketQueue.serial q + 1"
      "stamped t = [PacketQueue.serial q + 1]" "delivered t = []"
      using assms(3) False True w
      by (auto simp: packet_queue_put_def put_private_cases stamps_def)
    have le: "list_all (\<lambda>s. s \<le> PacketQueue.serial q + 1) (stamps q)"
      using assms(1) by (auto simp: well_stamped_def intro: list_all_mono_le)
    show ?thesis
      using assms(1,2,4) q' fl le
      by (auto simp: well_stamped_def lower_bound_def sorted_snoc_le)
  next
    case nf: False
    have q': "stamps q' = stamps q @ [PacketQueue.serial q]"
      "PacketQueue.serial q' = PacketQueue.serial q"
      "stamped t = [PacketQueue.serial q]" "delivered t = []" "flushes t = 0"
      using assms(3) False nf
      by (auto simp: packet_queue_put_def put_private_cases stamps_def)
    show ?thesis
      using assms(1,2) q'
      by (auto simp: well_stamped_def lower_bound_def sorted_snoc_le)
  qed
qed

lemma pq_step_start:
  assumes "well_stamped q" "lower_bound b q" "pq_step szof q (Call_start a) = (q', t)"
    "PacketQueue.serial q + int (flushes t) \<le> INT_MAX"
  shows "well_stamped q' \<and> lower_bound b q'
    \<and> PacketQueue.serial q' = PacketQueue.serial q + int (flushes t)
    \<and> list_all (\<lambda>s. s = PacketQueue.serial q') (stamped t)
    \<and> delivered t = []"
proof (cases a)
  case False
  then have "q' = q\<lparr>abort_request := 0\<rparr>" "t = \<lparr>stamped = [], delivered = [], flushes = 0\<rparr>"
    using assms(3) by (auto simp: packet_queue_start_def put_private_cases Let_def)
  then show ?thesis using assms(1,2) by (simp add: well_stamped_def lower_bound_def stamps_def)
next
  case True
  have fl: "flushes t = 1"
    using assms(3) True by (auto simp: Let_def)
  have w: "wrap32 (PacketQueue.serial q + 1) = PacketQueue.serial q + 1"
    using assms(1,4) fl by (intro wrap32_id) (auto simp: well_stamped_def)
  have q': "stamps q' = stamps q @ [PacketQueue.serial q + 1]"
    "PacketQueue.serial q' = PacketQueue.serial q + 1"
    "stamped t = [PacketQueue.serial q + 1]" "delivered t = []"
    using assms(3) True w
    by (auto simp: packet_queue_start_def put_private_cases stamps_def Let_def)
  have le: "list_all (\<lambda>s. s \<le> PacketQueue.serial q + 1) (stamps q)"
    using assms(1) by (auto simp: well_stamped_def intro: list_all_mono_le)
  show ?thesis
    using assms(1,2,4) q' fl le
    by (auto simp: well_stamped_def lower_bound_def sorted_snoc_le)
qed

lemma pq_step_get:
  assumes "well_stamped q" "lower_bound b q" "pq_step szof q (Call_get block) = (q', t)"
  shows "well_stamped q' \<and> lower_bound b q'
    \<and> PacketQueue.serial q' = PacketQueue.serial q
    \<and> stamped t = [] \<and> flushes t = 0
    \<and> list_all (\<lambda>d. b \<le> d \<and> d \<le> PacketQueue.serial q \<and> lower_bound d q') (delivered t)"
proof (cases "abort_request q = 0 \<and> first_pkt q \<noteq> []")
  case False
  then have "q' = q" "t = no_trace"
    using assms(3) by (auto simp: packet_queue_get_def split: list.splits if_splits)
  then show ?thesis using assms(1,2) by (simp add: no_trace_def)
next
  case True
  then obtain e rest where e: "first_pkt q = e # rest" by (cases "first_pkt q") auto
  have q': "stamps q' = map MyAVPacketList.serial rest"
      "PacketQueue.serial q' = PacketQueue.serial q"
      "t = \<lparr>stamped = [], delivered = [MyAVPacketList.serial e], flushes = 0\<rparr>"
    using assms(3) True e by (auto simp: packet_queue_get_def stamps_def)
  have s: "stamps q = MyAVPacketList.serial e # map MyAVPacketList.serial rest"
    using e by (simp add: stamps_def)
  show ?thesis
    using assms(1,2) q' s
    by (auto simp: well_stamped_def lower_bound_def list_all_iff)
qed

lemma pq_step_inv:
  assumes "well_stamped q" "lower_bound b q" "pq_step szof q c = (q', t)"
    "PacketQueue.serial q + int (flushes t) \<le> INT_MAX"
  shows "well_stamped q' \<and> lower_bound b q'
    \<and> PacketQueue.serial q' = PacketQueue.serial q + int (flushes t)
    \<and> list_all (\<lambda>s. s = PacketQueue.serial q') (stamped t)
    \<and> list_all (\<lambda>d. b \<le> d \<and> d \<le> PacketQueue.serial q \<and> lower_bound d q') (delivered t)"
proof (cases c)
  case (Call_put p a)
  then have "pq_step szof q (Call_put p a) = (q', t)" using assms(3) by simp
  from pq_step_put[OF assms(1,2) this assms(4)] show ?thesis by fastforce
next
  case (Call_get block)
  then have "pq_step szof q (Call_get block) = (q', t)" using assms(3) by simp
  from pq_step_get[OF assms(1,2) this] show ?thesis by fastforce
next
  case Call_flush
  then have "q' = packet_queue_flush q" "t = no_trace" using assms(3) by auto
  then show ?thesis using assms(1,2)
    by (simp add: no_trace_def packet_queue_flush_def well_stamped_def lower_bound_def stamps_def)
next
  case Call_abort
  then have "q' = packet_queue_abort q" "t = no_trace" using assms(3) by auto
  then show ?thesis using assms(1,2)
    by (simp add: no_trace_def packet_queue_abort_def well_stamped_def lower_bound_def stamps_def)
next
  case (Call_start a)
  then have "pq_step szof q (Call_start a) = (q', t)" using assms(3) by simp
  from pq_step_start[OF assms(1,2) this assms(4)] show ?thesis by fastforce
qed


lemma pq_step_delivered_short:
  "pq_step szof q c = (q', t) \<Longrightarrow> length (delivered t) \<le> 1"
  by (cases c)
    (auto simp: no_trace_def Let_def split: prod.splits get_result.splits option.splits)

lemma sorted_short: "length (xs::int list) \<le> 1 \<Longrightarrow> sorted xs"
  by (cases xs) auto

lemma pq_run_inv:
  "well_stamped q \<Longrightarrow> lower_bound b q \<Longrightarrow> pq_run szof q cs = (q', t) \<Longrightarrow>
   PacketQueue.serial q + int (flushes t) \<le> INT_MAX \<Longrightarrow>
   well_stamped q' \<and> lower_bound b q'
   \<and> PacketQueue.serial q' = PacketQueue.serial q + int (flushes t)
   \<and> list_all (\<lambda>s. PacketQueue.serial q \<le> s \<and> s \<le> PacketQueue.serial q') (stamped t)
   \<and> list_all (\<lambda>d. b \<le> d \<and> d \<le> PacketQueue.serial q' \<and> lower_bound d q') (delivered t)
   \<and> sorted (delivered t)"
proof (induction cs arbitrary: q b q' t)
  case Nil
  then show ?case by (auto simp: no_trace_def)
next
  case (Cons c cs)
  obtain q1 t1 where st: "pq_step szof q c = (q1, t1)" by (cases "pq_step szof q c")
  obtain q2 t2 where rn: "pq_run szof q1 cs = (q2, t2)" by (cases "pq_run szof q1 cs")
  have t: "stamped t = stamped t1 @ stamped t2" "delivered t = delivered t1 @ delivered t2"
    "flushes t = flushes t1 + flushes t2" and q2: "q' = q2"
    using Cons.prems(3) st rn by auto
  have r1: "PacketQueue.serial q + int (flushes t1) \<le> INT_MAX"
    using Cons.prems(4) t by simp
  note s1 = pq_step_inv[OF Cons.prems(1,2) st r1]
  have wf1: "well_stamped q1" and lb1: "lower_bound b q1"
    and ser1: "PacketQueue.serial q1 = PacketQueue.serial q + int (flushes t1)"
    and st1: "list_all (\<lambda>s. s = PacketQueue.serial q1) (stamped t1)"
    and d1: "list_all (\<lambda>d. b \<le> d \<and> d \<le> PacketQueue.serial q \<and> lower_bound d q1) (delivered t1)"
    using s1 by auto
  have r2: "PacketQueue.serial q1 + int (flushes t2) \<le> INT_MAX"
    using Cons.prems(4) t ser1 by simp
  note s2 = Cons.IH[OF wf1 lb1 rn r2]
  have wf2: "well_stamped q2" and lb2: "lower_bound b q2"
    and ser2: "PacketQueue.serial q2 = PacketQueue.serial q1 + int (flushes t2)"
    and st2: "list_all (\<lambda>s. PacketQueue.serial q1 \<le> s \<and> s \<le> PacketQueue.serial q2) (stamped t2)"
    and d2: "list_all (\<lambda>d. b \<le> d \<and> d \<le> PacketQueue.serial q2 \<and> lower_bound d q2) (delivered t2)"
    and so2: "sorted (delivered t2)"
    using s2 by auto
  have le01: "PacketQueue.serial q \<le> PacketQueue.serial q1" using ser1 by simp
  have le12: "PacketQueue.serial q1 \<le> PacketQueue.serial q2" using ser2 by simp
  have stamped: "list_all (\<lambda>s. PacketQueue.serial q \<le> s \<and> s \<le> PacketQueue.serial q2) (stamped t)"
    using st1 st2 le01 le12 t by (auto simp: list_all_iff)
  have cross: "x \<le> y \<and> lower_bound x q2"
    if "x \<in> set (delivered t1)" "y \<in> set (delivered t2)" for x y
  proof -
    have "lower_bound x q1" using d1 that(1) by (auto simp: list_all_iff)
    from Cons.IH[OF wf1 this rn r2] that(2) show ?thesis by (auto simp: list_all_iff)
  qed
  have keep: "lower_bound x q2" if "x \<in> set (delivered t1)" for x
  proof -
    have "lower_bound x q1" using d1 that(1) by (auto simp: list_all_iff)
    from Cons.IH[OF wf1 this rn r2] show ?thesis by simp
  qed
  have deliv: "list_all (\<lambda>d. b \<le> d \<and> d \<le> PacketQueue.serial q2 \<and> lower_bound d q2) (delivered t)"
    using d1 d2 le01 le12 t keep by (auto simp: list_all_iff)
  have "sorted (delivered t1)"
    using pq_step_delivered_short[OF st] by (rule sorted_short)
  then have so: "sorted (delivered t)"
    using so2 cross t by (auto simp: sorted_append)
  show ?case
    using wf2 lb2 ser1 ser2 stamped deliv so t q2 by simp
qed


lemma pq_step_flush_entered:
  assumes "well_stamped q" "pq_step szof q c = (q', t)" "flushes t = 1"
    "PacketQueue.serial q < INT_MAX"
  shows "PacketQueue.serial q' = PacketQueue.serial q + 1
    \<and> stamped t = [PacketQueue.serial q + 1] \<and> delivered t = []
    \<and> stamps q' = stamps q @ [PacketQueue.serial q + 1]"
proof -
  have w: "wrap32 (PacketQueue.serial q + 1) = PacketQueue.serial q + 1"
    using assms(1,4) by (intro wrap32_id) (auto simp: well_stamped_def)
  show ?thesis
  proof (cases c)
    case (Call_put p a)
    then show ?thesis using assms(2,3) w
      by (auto simp: packet_queue_put_def put_private_cases stamps_def split: if_splits)
  next
    case (Call_start a)
    then show ?thesis using assms(2,3) w
      by (auto simp: packet_queue_start_def put_private_cases stamps_def Let_def
          split: if_splits)
  next
    case (Call_get block)
    then show ?thesis using assms(2,3)
      by (auto simp: no_trace_def split: get_result.splits option.splits prod.splits)
  qed (use assms(2,3) in \<open>auto simp: no_trace_def\<close>)
qed

lemma pq_step_fifo:
  assumes "c \<noteq> Call_flush" "pq_step szof q c = (q', t)"
  shows "delivered t @ stamps q' = stamps q @ stamped t"
proof (cases c)
  case (Call_put p a)
  then show ?thesis using assms(2)
    by (auto simp: packet_queue_put_def put_private_cases stamps_def split: if_splits)
next
  case (Call_get block)
  then show ?thesis using assms(2)
    by (auto simp: packet_queue_get_def stamps_def no_trace_def
        split: if_splits list.splits)
next
  case Call_flush
  then show ?thesis using assms(1) by simp
next
  case Call_abort
  then show ?thesis using assms(2)
    by (auto simp: packet_queue_abort_def stamps_def no_trace_def)
next
  case (Call_start a)
  then show ?thesis using assms(2)
    by (auto simp: packet_queue_start_def put_private_cases stamps_def Let_def
        split: if_splits)
qed

lemma pq_run_fifo:
  "Call_flush \<notin> set cs \<Longrightarrow> pq_run szof q cs = (q', t) \<Longrightarrow>
   delivered t @ stamps q' = stamps q @ stamped t"
proof (induction cs arbitrary: q q' t)
  case Nil
  then show ?case by (auto simp: no_trace_def)
next
  case (Cons c cs)
  obtain q1 t1 where st: "pq_step szof q c = (q1, t1)" by (cases "pq_step szof q c")
  obtain q2 t2 where rn: "pq_run szof q1 cs = (q2, t2)" by (cases "pq_run szof q1 cs")
  have t: "stamped t = stamped t1 @ stamped t2" "delivered t = delivered t1 @ delivered t2"
    and q2: "q' = q2"
    using Cons.prems(2) st rn by auto
  have c: "c \<noteq> Call_flush" and cs: "Call_flush \<notin> set cs" using Cons.prems(1) by auto
  have "delivered t1 @ stamps q1 = stamps q @ stamped t1" by (rule pq_step_fifo[OF c st])
  moreover have "delivered t2 @ stamps q2 = stamps q1 @ stamped t2" by (rule Cons.IH[OF cs rn])
  ultimately show ?case using t q2 by (metis append.assoc)
qed

lemma get_head:
  "abort_request q0 = 0 \<Longrightarrow> first_pkt q0 = e # rest \<Longrightarrow>
   packet_queue_get szof q0 block =
     Returned 1 (Some (pkt e, MyAVPacketList.serial e))
       (q0\<lparr>first_pkt := rest,
            nb_packets := wrap32 (nb_packets q0 - 1),
            PacketQueue.size := wrap32 (PacketQueue.size q0 - (AVPacket.size (pkt e) + szof)),
            PacketQueue.duration :=
              wrap64 (PacketQueue.duration q0 - AVPacket.duration (pkt e))\<rparr>)"
  by (simp add: packet_queue_get_def)

lemma put_flush_exact:
  "abort_request q0 = 0 \<Longrightarrow> INT_MIN \<le> PacketQueue.serial q0 \<Longrightarrow>
   PacketQueue.serial q0 < INT_MAX \<Longrightarrow>
   packet_queue_put_private szof True q0 Flush_pkt_ptr =
     (0, q0\<lparr>first_pkt :=
               first_pkt q0 @ [\<lparr>pkt = flush_pkt, serial = PacketQueue.serial q0 + 1\<rparr>],
             nb_packets := wrap32 (nb_packets q0 + 1),
             PacketQueue.size := wrap32 (PacketQueue.size q0 + szof),
             PacketQueue.duration := wrap64 (PacketQueue.duration q0),
             PacketQueue.serial := PacketQueue.serial q0 + 1\<rparr>)"
  by (simp add: put_private_cases wrap32_id flush_pkt_def)

text \<open>
  C1, as the code has it. Take a well stamped queue \<open>q\<close>, a run \<open>cs\<close> of calls, then a
  call \<open>c\<close> by which a flush packet enters the queue, then a run \<open>cs'\<close>, the serial
  staying within \<open>int\<close>. Then:
  \<^item> after \<open>cs\<close> the serial is the initial one plus the number of flush packets that
    entered, and again so after the whole run;
  \<^item> the flush packet raises the serial by one and is stamped with the raised value;
  \<^item> every entry enqueued from the flush packet on is stamped strictly higher than
    every entry enqueued before it;
  \<^item> \<open>packet_queue_get\<close> on a queue that is not aborted takes the head entry and
    returns its packet with the stamp of that entry; so in a run without
    \<open>packet_queue_flush\<close> the stamps delivered, followed by the stamps still queued,
    are the stamps of the entries in the order in which they were enqueued: the
    entries that wait in the queue when the flush packet enters are delivered first,
    under their lower stamps, then the flush packet, then what was put after it;
  \<^item> in every run the stamps are delivered in ascending order and none exceeds the
    queue's serial;
  \<^item> when the queue is empty as the flush packet enters (the seek empties it with
    \<open>packet_queue_flush\<close> first), no packet stamped lower than the new serial is
    delivered afterward;
  \<^item> a put of the flush packet on a queue that is not aborted appends it stamped with
    the serial plus one, which becomes the serial; a put of any other packet leaves
    the serial alone and stamps the entry with it.
\<close>

theorem packet_queue_serial_stamps:
  assumes wf: "well_stamped q"
    and run1: "pq_run szof q cs = (q1, t1)"
    and fl: "pq_step szof q1 c = (q1', tf)" "flushes tf = 1"
    and run2: "pq_run szof q1' cs' = (q2, t2)"
    and range: "PacketQueue.serial q + int (flushes t1) + 1 + int (flushes t2) \<le> INT_MAX"
  shows "PacketQueue.serial q1 = PacketQueue.serial q + int (flushes t1)
    \<and> PacketQueue.serial q1' = PacketQueue.serial q1 + 1
    \<and> stamped tf = [PacketQueue.serial q1 + 1]
    \<and> PacketQueue.serial q2 = PacketQueue.serial q + int (flushes t1 + 1 + flushes t2)
    \<and> list_all (\<lambda>a. list_all (\<lambda>b. a < b) (stamped tf @ stamped t2)) (stamps q @ stamped t1)
    \<and> sorted (delivered t1 @ delivered tf @ delivered t2)
    \<and> list_all (\<lambda>d. d \<le> PacketQueue.serial q2) (delivered t1 @ delivered tf @ delivered t2)
    \<and> (first_pkt q1 = [] \<longrightarrow> list_all (\<lambda>d. PacketQueue.serial q1 + 1 \<le> d) (delivered t2))
    \<and> (abort_request q0 = 0 \<longrightarrow>
         packet_queue_put_private szof True q0 (Pkt_ptr p) =
           (0, q0\<lparr>first_pkt := first_pkt q0 @ [\<lparr>pkt = p, serial = PacketQueue.serial q0\<rparr>],
                  nb_packets := wrap32 (nb_packets q0 + 1),
                  PacketQueue.size := wrap32 (PacketQueue.size q0 + AVPacket.size p + szof),
                  PacketQueue.duration :=
                    wrap64 (PacketQueue.duration q0 + AVPacket.duration p)\<rparr>))
    \<and> (Call_flush \<notin> set cs \<longrightarrow> delivered t1 @ stamps q1 = stamps q @ stamped t1)
    \<and> (Call_flush \<notin> set cs' \<longrightarrow>
         delivered t2 @ stamps q2 = stamps q1 @ stamped tf @ stamped t2)
    \<and> (abort_request q0 = 0 \<longrightarrow> first_pkt q0 = e # rest \<longrightarrow>
         packet_queue_get szof q0 block =
           Returned 1 (Some (pkt e, MyAVPacketList.serial e))
             (q0\<lparr>first_pkt := rest,
                  nb_packets := wrap32 (nb_packets q0 - 1),
                  PacketQueue.size :=
                    wrap32 (PacketQueue.size q0 - (AVPacket.size (pkt e) + szof)),
                  PacketQueue.duration :=
                    wrap64 (PacketQueue.duration q0 - AVPacket.duration (pkt e))\<rparr>))
    \<and> (abort_request q0 = 0 \<longrightarrow> INT_MIN \<le> PacketQueue.serial q0 \<longrightarrow>
         PacketQueue.serial q0 < INT_MAX \<longrightarrow>
         packet_queue_put_private szof True q0 Flush_pkt_ptr =
           (0, q0\<lparr>first_pkt :=
                     first_pkt q0
                       @ [\<lparr>pkt = flush_pkt, serial = PacketQueue.serial q0 + 1\<rparr>],
                   nb_packets := wrap32 (nb_packets q0 + 1),
                   PacketQueue.size := wrap32 (PacketQueue.size q0 + szof),
                   PacketQueue.duration := wrap64 (PacketQueue.duration q0),
                   PacketQueue.serial := PacketQueue.serial q0 + 1\<rparr>))"
proof -
  define b where "b = min (PacketQueue.serial q) (if stamps q = [] then PacketQueue.serial q else hd (stamps q))"
  have lb0: "lower_bound b q"
    using wf unfolding b_def lower_bound_def well_stamped_def
    by (cases "stamps q") (auto simp: list_all_iff)
  have r1: "PacketQueue.serial q + int (flushes t1) \<le> INT_MAX" using range by simp
  note i1 = pq_run_inv[OF wf lb0 run1 r1]
  have wf1: "well_stamped q1" and lb1: "lower_bound b q1"
    and ser1: "PacketQueue.serial q1 = PacketQueue.serial q + int (flushes t1)"
    and st1: "list_all (\<lambda>s. PacketQueue.serial q \<le> s \<and> s \<le> PacketQueue.serial q1) (stamped t1)"
    and d1: "list_all (\<lambda>d. b \<le> d \<and> d \<le> PacketQueue.serial q1) (delivered t1)"
    and so1: "sorted (delivered t1)"
    using i1 by (auto simp: list_all_iff)
  have lt1: "PacketQueue.serial q1 < INT_MAX" using range ser1 by simp
  note f = pq_step_flush_entered[OF wf1 fl lt1]
  have serf: "PacketQueue.serial q1' = PacketQueue.serial q1 + 1"
    and stf: "stamped tf = [PacketQueue.serial q1 + 1]" and df: "delivered tf = []"
    and stampsf: "stamps q1' = stamps q1 @ [PacketQueue.serial q1 + 1]"
    using f by auto
  have rf: "PacketQueue.serial q1 + int (flushes tf) \<le> INT_MAX" using lt1 fl(2) by simp
  note sf = pq_step_inv[OF wf1 lb1 fl(1) rf]
  have wff: "well_stamped q1'" and lbf: "lower_bound b q1'" using sf by auto
  have r2: "PacketQueue.serial q1' + int (flushes t2) \<le> INT_MAX"
    using range ser1 serf by simp
  note i2 = pq_run_inv[OF wff lbf run2 r2]
  have ser2: "PacketQueue.serial q2 = PacketQueue.serial q1' + int (flushes t2)"
    and st2: "list_all (\<lambda>s. PacketQueue.serial q1' \<le> s \<and> s \<le> PacketQueue.serial q2) (stamped t2)"
    and d2: "list_all (\<lambda>d. b \<le> d \<and> d \<le> PacketQueue.serial q2) (delivered t2)"
    and so2: "sorted (delivered t2)"
    using i2 by (auto simp: list_all_iff)
  have c4: "PacketQueue.serial q2 = PacketQueue.serial q + int (flushes t1 + 1 + flushes t2)"
    using ser1 serf ser2 by simp
  have old: "list_all (\<lambda>a. a \<le> PacketQueue.serial q1) (stamps q @ stamped t1)"
    using wf st1 ser1 by (auto simp: well_stamped_def list_all_iff)
  have new: "list_all (\<lambda>b. PacketQueue.serial q1 < b) (stamped tf @ stamped t2)"
    using stf st2 serf by (auto simp: list_all_iff)
  have c5: "list_all (\<lambda>a. list_all (\<lambda>b. a < b) (stamped tf @ stamped t2)) (stamps q @ stamped t1)"
    unfolding list_all_iff
  proof (intro ballI)
    fix x y assume "x \<in> set (stamps q @ stamped t1)" "y \<in> set (stamped tf @ stamped t2)"
    then have "x \<le> PacketQueue.serial q1" "PacketQueue.serial q1 < y"
      using old new by (auto simp: list_all_iff)
    then show "x < y" by simp
  qed
  have cross: "x \<le> y" if "x \<in> set (delivered t1)" "y \<in> set (delivered t2)" for x y
  proof -
    have "lower_bound x q1" using i1 that(1) by (auto simp: list_all_iff)
    from pq_step_inv[OF wf1 this fl(1) rf] have "lower_bound x q1'" by simp
    from pq_run_inv[OF wff this run2 r2] that(2) show ?thesis by (auto simp: list_all_iff)
  qed
  have c6: "sorted (delivered t1 @ delivered tf @ delivered t2)"
    using so1 so2 cross df by (auto simp: sorted_append)
  have le12: "PacketQueue.serial q1 \<le> PacketQueue.serial q2" using serf ser2 by simp
  have c7: "list_all (\<lambda>d. d \<le> PacketQueue.serial q2) (delivered t1 @ delivered tf @ delivered t2)"
    using d1 d2 df le12 by (auto simp: list_all_iff)
  have c8: "list_all (\<lambda>d. PacketQueue.serial q1 + 1 \<le> d) (delivered t2)" if "first_pkt q1 = []"
  proof -
    have "stamps q1' = [PacketQueue.serial q1 + 1]" using stampsf that by (simp add: stamps_def)
    then have "lower_bound (PacketQueue.serial q1 + 1) q1'"
      using serf by (simp add: lower_bound_def)
    from pq_run_inv[OF wff this run2 r2] show ?thesis by (auto simp: list_all_iff)
  qed
  have c9: "abort_request q0 = 0 \<longrightarrow>
         packet_queue_put_private szof True q0 (Pkt_ptr p) =
           (0, q0\<lparr>first_pkt := first_pkt q0 @ [\<lparr>pkt = p, serial = PacketQueue.serial q0\<rparr>],
                  nb_packets := wrap32 (nb_packets q0 + 1),
                  PacketQueue.size := wrap32 (PacketQueue.size q0 + AVPacket.size p + szof),
                  PacketQueue.duration :=
                    wrap64 (PacketQueue.duration q0 + AVPacket.duration p)\<rparr>)"
    by (simp add: put_private_cases)
  have c10: "delivered t1 @ stamps q1 = stamps q @ stamped t1" if "Call_flush \<notin> set cs"
    by (rule pq_run_fifo[OF that run1])
  have c11: "delivered t2 @ stamps q2 = stamps q1 @ stamped tf @ stamped t2"
    if "Call_flush \<notin> set cs'"
    using pq_run_fifo[OF that run2] stampsf stf by simp
  note c12 = get_head[of q0 e rest szof block]
  note c13 = put_flush_exact[of q0 szof]
  show ?thesis
    using ser1 serf stf c4 c5 c6 c7 c8 c9 c10 c11 c12 c13 by blast
qed


lemmas pq_eval =
  fresh_queue_def packet_queue_init_def zero_PacketQueue_def packet_queue_start_def
  packet_queue_put_def packet_queue_put_private_def packet_queue_get_def
  wrap32_def wrap64_def Let_def stamps_def no_trace_def flush_pkt_def example_pkt_def

text \<open>
  C1 as stated fails: start a fresh queue, take the flush packet out, put a packet and
  then the flush packet. Two flush packets have entered and the serial is 2, and the
  next get delivers the packet stamped 1.
\<close>

theorem stale_packet_delivered_after_flush:
  "flushes (snd (pq_run 104 fresh_queue stale_calls)) = 2
   \<and> PacketQueue.serial (fst (pq_run 104 fresh_queue stale_calls))
       = PacketQueue.serial fresh_queue + 2
   \<and> delivered (snd (pq_run 104 (fst (pq_run 104 fresh_queue stale_calls)) [Call_get 0])) = [1]
   \<and> \<not> list_all (\<lambda>d. PacketQueue.serial (fst (pq_run 104 fresh_queue stale_calls)) \<le> d)
          (delivered (snd (pq_run 104 (fst (pq_run 104 fresh_queue stale_calls)) [Call_get 0])))"
  by (simp add: stale_calls_def pq_eval)

theorem packet_queue_serial_stamps_witness:
  "well_stamped fresh_queue
   \<and> flushes (snd (pq_step 104 (fst (pq_run 104 fresh_queue [Call_start True, Call_get 0]))
                  (Call_put Flush_pkt_ptr True))) = 1
   \<and> PacketQueue.serial fresh_queue
        + int (flushes (snd (pq_run 104 fresh_queue [Call_start True, Call_get 0]))) + 1
        + int (flushes (snd (pq_run 104
            (fst (pq_step 104 (fst (pq_run 104 fresh_queue [Call_start True, Call_get 0]))
                  (Call_put Flush_pkt_ptr True)))
            [Call_put (Pkt_ptr example_pkt) True, Call_get 0, Call_get 0]))) \<le> INT_MAX
   \<and> PacketQueue.serial (fst (pq_run 104
            (fst (pq_step 104 (fst (pq_run 104 fresh_queue [Call_start True, Call_get 0]))
                  (Call_put Flush_pkt_ptr True)))
            [Call_put (Pkt_ptr example_pkt) True, Call_get 0, Call_get 0])) = 2
   \<and> delivered (snd (pq_run 104 fresh_queue [Call_start True, Call_get 0])) = [1]
   \<and> Call_flush \<notin> set [Call_start True, Call_get 0]
   \<and> Call_flush \<notin> set [Call_put (Pkt_ptr example_pkt) True, Call_get 0, Call_get 0]
   \<and> delivered (snd (pq_run 104
            (fst (pq_step 104 (fst (pq_run 104 fresh_queue [Call_start True, Call_get 0]))
                  (Call_put Flush_pkt_ptr True)))
            [Call_put (Pkt_ptr example_pkt) True, Call_get 0, Call_get 0])) = [2, 2]
   \<and> list_all (\<lambda>d. 2 \<le> d) (delivered (snd (pq_run 104
            (fst (pq_step 104 (fst (pq_run 104 fresh_queue [Call_start True, Call_get 0]))
                  (Call_put Flush_pkt_ptr True)))
            [Call_put (Pkt_ptr example_pkt) True, Call_get 0, Call_get 0])))"
  using packet_queue_serial_stamps
    [of fresh_queue 104 "[Call_start True, Call_get 0]"
       "fst (pq_run 104 fresh_queue [Call_start True, Call_get 0])"
       "snd (pq_run 104 fresh_queue [Call_start True, Call_get 0])"
       "Call_put Flush_pkt_ptr True"
       "fst (pq_step 104 (fst (pq_run 104 fresh_queue [Call_start True, Call_get 0]))
                  (Call_put Flush_pkt_ptr True))"
       "snd (pq_step 104 (fst (pq_run 104 fresh_queue [Call_start True, Call_get 0]))
                  (Call_put Flush_pkt_ptr True))"
       "[Call_put (Pkt_ptr example_pkt) True, Call_get 0, Call_get 0]"
       "fst (pq_run 104
            (fst (pq_step 104 (fst (pq_run 104 fresh_queue [Call_start True, Call_get 0]))
                  (Call_put Flush_pkt_ptr True)))
            [Call_put (Pkt_ptr example_pkt) True, Call_get 0, Call_get 0])"
       "snd (pq_run 104
            (fst (pq_step 104 (fst (pq_run 104 fresh_queue [Call_start True, Call_get 0]))
                  (Call_put Flush_pkt_ptr True)))
            [Call_put (Pkt_ptr example_pkt) True, Call_get 0, Call_get 0])"
       fresh_queue example_pkt]
  by (simp add: pq_eval well_stamped_def INT_MIN_def INT_MAX_def)

section \<open>Reading and setting clocks\<close>

lemma seconds_Fin: "seconds now = Fin (real_of_int now / 1000000)"
  by (simp add: seconds_def double_of_int_def)




section \<open>Master clock selection\<close>

text \<open>
  C3, as the code has it. Configured VIDEO: the master is VIDEO when a video stream is
  present and AUDIO when it is not, whether or not an audio stream is present.
  Configured AUDIO: the master is AUDIO when an audio stream is present and EXTERNAL
  when it is not. Any other configured value: EXTERNAL. \<open>get_master_clock\<close> reads the
  clock of that master.
\<close>

theorem get_master_sync_type_cases:
  "(av_sync_type is = AV_SYNC_VIDEO_MASTER \<and> video_st is \<noteq> Null_stream \<longrightarrow>
      get_master_sync_type is = AV_SYNC_VIDEO_MASTER
      \<and> get_master_clock is now = get_clock (queue_serials is) (vidclk is) now)
   \<and> (av_sync_type is = AV_SYNC_VIDEO_MASTER \<and> video_st is = Null_stream \<longrightarrow>
      get_master_sync_type is = AV_SYNC_AUDIO_MASTER
      \<and> get_master_clock is now = get_clock (queue_serials is) (audclk is) now)
   \<and> (av_sync_type is = AV_SYNC_AUDIO_MASTER \<and> audio_st is \<noteq> Null_stream \<longrightarrow>
      get_master_sync_type is = AV_SYNC_AUDIO_MASTER
      \<and> get_master_clock is now = get_clock (queue_serials is) (audclk is) now)
   \<and> (av_sync_type is = AV_SYNC_AUDIO_MASTER \<and> audio_st is = Null_stream \<longrightarrow>
      get_master_sync_type is = AV_SYNC_EXTERNAL_CLOCK
      \<and> get_master_clock is now = get_clock (queue_serials is) (extclk is) now)
   \<and> (av_sync_type is \<noteq> AV_SYNC_VIDEO_MASTER \<and> av_sync_type is \<noteq> AV_SYNC_AUDIO_MASTER \<longrightarrow>
      get_master_sync_type is = AV_SYNC_EXTERNAL_CLOCK
      \<and> get_master_clock is now = get_clock (queue_serials is) (extclk is) now)"
  by (simp add: get_master_sync_type_def get_master_clock_def AV_SYNC_VIDEO_MASTER_def
      AV_SYNC_AUDIO_MASTER_def AV_SYNC_EXTERNAL_CLOCK_def)

text \<open>
  C3 as stated fails for the configured type VIDEO without a video stream: the code
  falls back to AUDIO, the claim says EXTERNAL.
\<close>

theorem video_master_without_video_is_audio:
  "get_master_sync_type
     (sample_state\<lparr>av_sync_type := AV_SYNC_VIDEO_MASTER, video_st := Null_stream\<rparr>)
     = AV_SYNC_AUDIO_MASTER
   \<and> spec_master_sync_type AV_SYNC_VIDEO_MASTER True False = AV_SYNC_EXTERNAL_CLOCK
   \<and> get_master_sync_type
     (sample_state\<lparr>av_sync_type := AV_SYNC_VIDEO_MASTER, video_st := Null_stream\<rparr>)
     \<noteq> spec_master_sync_type AV_SYNC_VIDEO_MASTER
         (audio_st (sample_state\<lparr>av_sync_type := AV_SYNC_VIDEO_MASTER,
                                  video_st := Null_stream\<rparr>) \<noteq> Null_stream)
         (video_st (sample_state\<lparr>av_sync_type := AV_SYNC_VIDEO_MASTER,
                                  video_st := Null_stream\<rparr>) \<noteq> Null_stream)"
  by (simp add: get_master_sync_type_def spec_master_sync_type_def sample_state_def
      AV_SYNC_VIDEO_MASTER_def AV_SYNC_AUDIO_MASTER_def AV_SYNC_EXTERNAL_CLOCK_def)

theorem get_master_sync_type_cases_witness:
  "get_master_sync_type sample_state = AV_SYNC_EXTERNAL_CLOCK
   \<and> get_master_sync_type (sample_state\<lparr>av_sync_type := AV_SYNC_VIDEO_MASTER\<rparr>)
       = AV_SYNC_VIDEO_MASTER
   \<and> get_master_sync_type
       (sample_state\<lparr>av_sync_type := AV_SYNC_VIDEO_MASTER, video_st := Null_stream\<rparr>)
       = AV_SYNC_AUDIO_MASTER
   \<and> get_master_sync_type (sample_state\<lparr>av_sync_type := AV_SYNC_AUDIO_MASTER\<rparr>)
       = AV_SYNC_AUDIO_MASTER
   \<and> get_master_sync_type
       (sample_state\<lparr>av_sync_type := AV_SYNC_AUDIO_MASTER, audio_st := Null_stream\<rparr>)
       = AV_SYNC_EXTERNAL_CLOCK"
  using get_master_sync_type_cases [of sample_state 0]
    get_master_sync_type_cases [of "sample_state\<lparr>av_sync_type := AV_SYNC_VIDEO_MASTER\<rparr>" 0]
    get_master_sync_type_cases
      [of "sample_state\<lparr>av_sync_type := AV_SYNC_VIDEO_MASTER, video_st := Null_stream\<rparr>" 0]
    get_master_sync_type_cases [of "sample_state\<lparr>av_sync_type := AV_SYNC_AUDIO_MASTER\<rparr>" 0]
    get_master_sync_type_cases
      [of "sample_state\<lparr>av_sync_type := AV_SYNC_AUDIO_MASTER, audio_st := Null_stream\<rparr>" 0]
  by (simp add: sample_state_def AV_SYNC_VIDEO_MASTER_def AV_SYNC_AUDIO_MASTER_def
      AV_SYNC_EXTERNAL_CLOCK_def)

section \<open>Rounding to double\<close>

lemma rint_half: "\<bar>real_of_int (rint z) - z\<bar> \<le> 1 / 2"
proof -
  have "real_of_int \<lfloor>z\<rfloor> \<le> z" "z < real_of_int \<lfloor>z\<rfloor> + 1" by linarith+
  then show ?thesis by (auto simp: rint_def Let_def)
qed

lemma rint_of_int: "rint (real_of_int k) = k"
  by (simp add: rint_def Let_def)

lemma rint_near:
  assumes "\<bar>z - real_of_int k\<bar> < 1 / 2"
  shows "rint z = k"
proof -
  have "\<bar>real_of_int (rint z) - real_of_int k\<bar> < 1"
    using rint_half[of z] assms by linarith
  then have "\<bar>real_of_int (rint z - k)\<bar> < 1" by simp
  then have "\<bar>rint z - k\<bar> < 1" by (simp only: of_int_abs[symmetric] of_int_less_1_iff)
  then show ?thesis by simp
qed

lemma binade_bounds:
  assumes "x \<noteq> 0"
  shows "2 powr real_of_int (binade x) \<le> \<bar>x\<bar>"
    and "\<bar>x\<bar> < 2 powr (real_of_int (binade x) + 1)"
proof -
  have pos: "0 < \<bar>x\<bar>" using assms by simp
  have "real_of_int (binade x) \<le> log 2 \<bar>x\<bar>" by (simp add: binade_def)
  then have "2 powr real_of_int (binade x) \<le> 2 powr log 2 \<bar>x\<bar>"
    by (intro powr_mono) simp_all
  then show "2 powr real_of_int (binade x) \<le> \<bar>x\<bar>" using pos by simp
  have "log 2 \<bar>x\<bar> < real_of_int (binade x) + 1" by (simp add: binade_def)
  then have "2 powr log 2 \<bar>x\<bar> < 2 powr (real_of_int (binade x) + 1)"
    by (intro powr_less_mono) simp_all
  then show "\<bar>x\<bar> < 2 powr (real_of_int (binade x) + 1)" using pos by simp
qed

lemma binade_less:
  assumes "x \<noteq> 0" "\<bar>x\<bar> < 2 powr real_of_int k"
  shows "binade x < k"
proof -
  have "2 powr real_of_int (binade x) < 2 powr real_of_int k"
    using binade_bounds(1)[OF assms(1)] assms(2) by linarith
  then have "real_of_int (binade x) < real_of_int k" by simp
  then show ?thesis by simp
qed

lemma binade_eq:
  assumes "2 powr real_of_int b \<le> \<bar>x\<bar>" "\<bar>x\<bar> < 2 powr (real_of_int b + 1)"
  shows "binade x = b"
proof -
  have pos: "0 < \<bar>x\<bar>" using assms(1) powr_gt_zero[of 2 "real_of_int b"] by linarith
  then have nz: "x \<noteq> 0" by simp
  have "2 powr real_of_int (binade x) < 2 powr (real_of_int b + 1)"
    using binade_bounds(1)[OF nz] assms(2) by linarith
  then have "real_of_int (binade x) < real_of_int b + 1" by simp
  then have le: "binade x \<le> b" by linarith
  have "2 powr real_of_int b < 2 powr (real_of_int (binade x) + 1)"
    using binade_bounds(2)[OF nz] assms(1) by linarith
  then have "real_of_int b < real_of_int (binade x) + 1" by simp
  then have "b \<le> binade x" by linarith
  then show ?thesis using le by simp
qed

lemma quantum_pos: "0 < quantum x"
  by (simp add: quantum_def)

lemma quantum_le:
  assumes "x \<noteq> 0"
  shows "quantum x \<le> (\<bar>x\<bar> + 1) * 2 powr (- 52)"
proof -
  have small: "(2::real) powr (- 1022) \<le> 1"
    using powr_mono[of "- 1022" 0 "2::real"] by simp
  have "2 powr real_of_int (max (binade x) (- 1022)) \<le> \<bar>x\<bar> + 1"
  proof (cases "binade x \<le> - 1022")
    case True
    then have "max (binade x) (- 1022) = - 1022" by simp
    then show ?thesis using small by simp
  next
    case False
    then have "max (binade x) (- 1022) = binade x" by simp
    then show ?thesis using binade_bounds(1)[OF assms] by simp
  qed
  moreover have "quantum x = 2 powr real_of_int (max (binade x) (- 1022)) * 2 powr (- 52)"
    by (simp add: quantum_def powr_diff powr_minus field_simps)
  ultimately show ?thesis by (simp add: mult_right_mono)
qed

lemma fl_zero: "fl 0 = 0"
  by (simp add: fl_def)

lemma fl_error: "\<bar>fl x - x\<bar> \<le> quantum x / 2"
proof (cases "x = 0")
  case True
  then show ?thesis using quantum_pos[of x] by (simp add: fl_def)
next
  case False
  let ?q = "quantum x"
  have q: "0 < ?q" by (rule quantum_pos)
  have "fl x - x = (real_of_int (rint (x / ?q)) - x / ?q) * ?q"
    using False q by (simp add: fl_def field_simps)
  then have "\<bar>fl x - x\<bar> = \<bar>real_of_int (rint (x / ?q)) - x / ?q\<bar> * ?q"
    using q by (simp add: abs_mult)
  also have "\<dots> \<le> 1 / 2 * ?q"
    using rint_half[of "x / ?q"] q by (intro mult_right_mono) simp_all
  finally show ?thesis by simp
qed

lemma pow53: "(2::real) powr (- 53) = 1 / 9007199254740992"
  by (simp add: powr_minus inverse_eq_divide)

text \<open>The error of one rounding, bounded by the magnitude of the exact value.\<close>

lemma fl_near: "\<bar>fl x - x\<bar> \<le> (\<bar>x\<bar> + 1) / 9007199254740992"
proof (cases "x = 0")
  case True
  then show ?thesis by (simp add: fl_def)
next
  case False
  have "\<bar>fl x - x\<bar> \<le> quantum x / 2" by (rule fl_error)
  also have "\<dots> \<le> (\<bar>x\<bar> + 1) * 2 powr (- 52) / 2"
    using quantum_le[OF False] by simp
  also have "\<dots> = (\<bar>x\<bar> + 1) * 2 powr (- 53)"
    by (simp add: powr_minus)
  finally show ?thesis by (simp add: pow53)
qed

lemma fl_near_sum: "\<bar>fl x - x\<bar> \<le> \<bar>x\<bar> / 9007199254740992 + 1 / 9007199254740992"
  using fl_near[of x] by (simp add: add_divide_distrib)

text \<open>
  A number \<open>m * 2 ^ q\<close> with \<open>|m| < 2 ^ 53\<close> and \<open>q \<ge> - 1074\<close> is a double: rounding
  leaves it as it is.
\<close>

lemma fl_exact:
  assumes m: "\<bar>m\<bar> < 2 ^ 53" and q: "- 1074 \<le> q"
  shows "fl (real_of_int m * 2 powr real_of_int q) = real_of_int m * 2 powr real_of_int q"
proof (cases "m = 0")
  case True
  then show ?thesis by (simp add: fl_def)
next
  case False
  let ?x = "real_of_int m * 2 powr real_of_int q"
  have nz: "?x \<noteq> 0" using False by simp
  have "\<bar>real_of_int m\<bar> < 2 ^ 53"
    using m by (metis of_int_abs of_int_less_numeral_power_cancel_iff)
  then have "\<bar>?x\<bar> < 2 ^ 53 * 2 powr real_of_int q"
    by (simp add: abs_mult)
  also have "(2::real) ^ 53 * 2 powr real_of_int q = 2 powr real_of_int (53 + q)"
    by (simp add: powr_add)
  finally have "binade ?x < 53 + q" by (rule binade_less[OF nz])
  then have e: "max (binade ?x) (- 1022) - 52 \<le> q" using q by simp
  define e where "e = max (binade ?x) (- 1022) - 52"
  have qe: "quantum ?x = 2 powr real_of_int e" by (simp add: quantum_def e_def)
  have le: "e \<le> q" using e by (simp add: e_def)
  have "2 powr real_of_int q / 2 powr real_of_int e = 2 powr real_of_int (q - e)"
    by (simp add: powr_diff)
  also have "\<dots> = 2 ^ nat (q - e)"
    using le by (simp add: powr_realpow[symmetric])
  finally have ratio: "2 powr real_of_int q / 2 powr real_of_int e = 2 ^ nat (q - e)" .
  have "?x / quantum ?x = real_of_int m * (2 powr real_of_int q / 2 powr real_of_int e)"
    by (simp add: qe)
  also have "\<dots> = real_of_int (m * 2 ^ nat (q - e))"
    by (simp add: ratio)
  finally have "rint (?x / quantum ?x) = m * 2 ^ nat (q - e)"
    by (simp only: rint_of_int)
  then have "fl ?x = real_of_int (m * 2 ^ nat (q - e)) * 2 powr real_of_int e"
    using nz by (simp add: fl_def qe)
  also have "\<dots> = real_of_int m * (2 powr real_of_int q / 2 powr real_of_int e)
                      * 2 powr real_of_int e"
    by (simp add: ratio)
  also have "\<dots> = ?x" by simp
  finally show ?thesis .
qed

lemma fl_int: "\<bar>k\<bar> < 2 ^ 53 \<Longrightarrow> fl (real_of_int k) = real_of_int k"
  using fl_exact[of k 0] by simp

lemma fl_int_pow: "\<bar>k\<bar> < 2 ^ 53 \<Longrightarrow> fl (real_of_int k * 2 ^ n) = real_of_int k * 2 ^ n"
  using fl_exact[of k "int n"] by (simp add: powr_realpow)

lemma fl_dyadic:
  assumes "\<bar>k\<bar> < 2 ^ 53" "n \<le> 1074"
  shows "fl (real_of_int k / 2 ^ n) = real_of_int k / 2 ^ n"
proof -
  have "(2::real) powr real_of_int (- int n) = 1 / 2 ^ n"
    by (simp add: powr_minus powr_realpow inverse_eq_divide)
  then show ?thesis using fl_exact[of k "- int n"] assms by simp
qed

text \<open>
  Rounding a number that is not a double: between which powers of two it lies, and
  the nearest multiple of the quantum.
\<close>

lemma fl_round:
  assumes lo: "2 powr real_of_int b \<le> \<bar>x\<bar>" and hi: "\<bar>x\<bar> < 2 powr (real_of_int b + 1)"
    and b: "- 1022 \<le> b"
    and k: "\<bar>x / 2 powr real_of_int (b - 52) - real_of_int k\<bar> < 1 / 2"
  shows "fl x = real_of_int k * 2 powr real_of_int (b - 52)"
proof -
  have pos: "0 < \<bar>x\<bar>" using lo powr_gt_zero[of 2 "real_of_int b"] by linarith
  have "binade x = b" by (rule binade_eq[OF lo hi])
  then have "quantum x = 2 powr real_of_int (b - 52)" using b by (simp add: quantum_def)
  then show ?thesis using pos rint_near[OF k] by (simp add: fl_def)
qed

lemma fl_near_le:
  assumes "\<bar>x\<bar> + 1 \<le> b"
  shows "\<bar>fl x - x\<bar> \<le> b / 9007199254740992"
proof -
  have "(\<bar>x\<bar> + 1) / 9007199254740992 \<le> b / 9007199254740992"
    using assms by (simp add: divide_right_mono)
  then show ?thesis using fl_near[of x] by linarith
qed

lemma fl_margin:
  "10 + 1 / 1000000000 \<le> \<bar>d\<bar> \<Longrightarrow> 10 < \<bar>fl d\<bar>"
  "\<bar>d\<bar> \<le> 10 - 1 / 1000000000 \<Longrightarrow> \<bar>fl d\<bar> \<le> 10"
  using fl_near_sum[of d] by linarith+

text \<open>Doubling a double is exact.\<close>

lemma binade_twice:
  assumes "x \<noteq> 0"
  shows "binade (2 * x) = binade x + 1"
proof (rule binade_eq)
  have "2 powr real_of_int (binade x + 1) = 2 * 2 powr real_of_int (binade x)"
    by (simp add: powr_add)
  then show "2 powr real_of_int (binade x + 1) \<le> \<bar>2 * x\<bar>"
    using binade_bounds(1)[OF assms] by (simp add: abs_mult)
  have "2 powr (real_of_int (binade x + 1) + 1) = 2 * 2 powr (real_of_int (binade x) + 1)"
    by (simp add: powr_add)
  then show "\<bar>2 * x\<bar> < 2 powr (real_of_int (binade x + 1) + 1)"
    using binade_bounds(2)[OF assms] by (simp add: abs_mult)
qed

lemma fl_twice:
  assumes "fl x = x"
  shows "fl (2 * x) = 2 * x"
proof (cases "x = 0")
  case True
  then show ?thesis by (simp add: fl_def)
next
  case False
  define k where "k = rint (x / quantum x)"
  have q: "0 < quantum x" by (rule quantum_pos)
  have x: "x = real_of_int k * quantum x"
    using assms False by (simp add: fl_def k_def)
  have b2: "binade (2 * x) = binade x + 1" by (rule binade_twice[OF False])
  show ?thesis
  proof (cases "- 1022 \<le> binade x")
    case True
    then have "quantum (2 * x) = 2 * quantum x"
      by (simp add: quantum_def b2 powr_add powr_diff)
    moreover have "2 * x / (2 * quantum x) = real_of_int k"
      using x q by (metis mult_divide_mult_cancel_left_if nonzero_eq_divide_eq
          order_less_irrefl zero_neq_numeral)
    ultimately have "fl (2 * x) = real_of_int (rint (real_of_int k)) * (2 * quantum x)"
      using False by (simp add: fl_def)
    then show ?thesis using x by (simp add: rint_of_int)
  next
    case False
    then have "quantum (2 * x) = quantum x"
      by (simp add: quantum_def b2)
    moreover have "2 * x / quantum x = real_of_int (2 * k)"
      using x q by (metis mult.assoc nonzero_eq_divide_eq of_int_mult of_int_numeral
          order_less_irrefl)
    ultimately have "fl (2 * x) = real_of_int (rint (real_of_int (2 * k))) * quantum x"
      using \<open>x \<noteq> 0\<close> by (simp add: fl_def)
    then show ?thesis using x by (simp only: rint_of_int)
  qed
qed

text \<open>The doubles used in the examples, and the literals \<open>0.1\<close> and \<open>0.04\<close>.\<close>

lemma fl_numeral: "numeral n < (2::int) ^ 53 \<Longrightarrow> fl (numeral n) = numeral n"
  using fl_int[of "numeral n"] by simp

lemma fl_neg_numeral: "numeral n < (2::int) ^ 53 \<Longrightarrow> fl (- numeral n) = - numeral n"
  using fl_int[of "- numeral n"] by simp

lemma fl_one: "fl 1 = 1" "fl (- 1) = - 1"
  using fl_int[of 1] fl_int[of "- 1"] by simp_all

lemma fl_fractions:
  "fl (1 / 2) = 1 / 2"
  "fl (1 / 16) = 1 / 16"
  "fl (1 / 1024) = 1 / 1024"
  "fl (51 / 4) = 51 / 4"
  "fl (51 / 4096) = 51 / 4096"
  "fl (51 / 8192) = 51 / 8192"
  "fl (41011 / 4096) = 41011 / 4096"
  "fl (36915 / 4096) = 36915 / 4096"
  "fl (1 / 262144) = 1 / 262144"
  "fl (1 / 524288) = 1 / 524288"
  "fl (- (1 / 524288)) = - (1 / 524288)"
  "fl (9007199254740991 / 262144) = 9007199254740991 / 262144"
  using fl_dyadic[of 1 1] fl_dyadic[of 1 4] fl_dyadic[of 1 10] fl_dyadic[of 51 2]
    fl_dyadic[of 51 12] fl_dyadic[of 51 13] fl_dyadic[of 41011 12] fl_dyadic[of 36915 12]
    fl_dyadic[of 1 18] fl_dyadic[of 1 19] fl_dyadic[of "- 1" 19]
    fl_dyadic[of 9007199254740991 18]
  by simp_all

lemma fl_late_now: "fl 34359738368000000 = 34359738368000000"
  using fl_int_pow[of 15625 41] by simp

lemma fl_tenth: "fl (1 / 10) = 3602879701896397 / 36028797018963968"
  using fl_round[of "- 4" "1 / 10" 7205759403792794]
  by (simp add: powr_minus inverse_eq_divide)

lemma fl_twentyfifth: "fl (1 / 25) = 5764607523034235 / 144115188075855872"
  using fl_round[of "- 5" "1 / 25" 5764607523034235]
  by (simp add: powr_minus inverse_eq_divide)

lemma fl_late_drift: "fl (- (18014398509481985 / 524288)) = - 34359738368"
  using fl_round[of 35 "- (18014398509481985 / 524288)" "- 4503599627370496"]
  by (simp add: powr_minus inverse_eq_divide)

lemma fl_consts:
  "fl (3602879701896397 / 36028797018963968) = 3602879701896397 / 36028797018963968"
  "fl (3602879701896397 / 18014398509481984) = 3602879701896397 / 18014398509481984"
  "fl (- (159 / 16)) = - (159 / 16)"
  "fl (1 / 8) = 1 / 8"
  using fl_dyadic[of 3602879701896397 55] fl_dyadic[of 3602879701896397 54]
    fl_dyadic[of "- 159" 4] fl_dyadic[of 1 3]
  by simp_all

lemmas fl_eval = fl_zero fl_one fl_numeral fl_neg_numeral fl_fractions fl_late_now fl_late_drift
  fl_consts

section \<open>Clocks in double arithmetic\<close>

lemma seconds_fl_Fin: "seconds_fl now = Fin (fl (fl (real_of_int now) / 1000000))"
  by (simp add: seconds_fl_def double_of_int64_def)

text \<open>
  The reading in double arithmetic has the cases of the exact reading, and is the same
  value where no arithmetic is involved: for a clock whose serial differs from the
  serial it points at, and for a paused clock.
\<close>

lemma get_clock_fl_cases:
  "(load_queue_serial qs c \<noteq> Clock.serial c \<longrightarrow> get_clock_fl qs c now = NaN)
   \<and> (load_queue_serial qs c = Clock.serial c \<longrightarrow> Clock.paused c \<noteq> 0 \<longrightarrow>
        get_clock_fl qs c now = pts c)
   \<and> (load_queue_serial qs c = Clock.serial c \<longrightarrow> Clock.paused c = 0 \<longrightarrow>
        get_clock_fl qs c now =
          sub_d (add_d (pts_drift c) (seconds_fl now))
            (mul_d (sub_d (seconds_fl now) (last_updated c)) (sub_d (Fin 1) (speed c))))
   \<and> (load_queue_serial qs c \<noteq> Clock.serial c \<or> Clock.paused c \<noteq> 0 \<longrightarrow>
        get_clock_fl qs c now = get_clock qs c now)"
  by (simp add: get_clock_fl_def get_clock_def Let_def)

text \<open>The master clock in double arithmetic is the reading of the selected master.\<close>

lemma get_master_clock_fl_cases:
  "get_master_clock_fl is now =
     get_clock_fl (queue_serials is)
       (if get_master_sync_type is = AV_SYNC_VIDEO_MASTER then vidclk is
        else if get_master_sync_type is = AV_SYNC_AUDIO_MASTER then audclk is
        else extclk is) now"
  by (simp add: get_master_clock_fl_def)

lemma seconds_fl_bound:
  assumes "\<bar>now\<bar> \<le> 4000000000000000"
  shows "\<bar>fl (fl (real_of_int now) / 1000000)\<bar> \<le> 4000000001"
proof -
  have "\<bar>now\<bar> < 2 ^ 53" using assms by simp
  then have ex: "fl (real_of_int now) = real_of_int now" by (rule fl_int)
  have "\<bar>real_of_int now\<bar> \<le> 4000000000000000"
    using assms by (metis of_int_abs of_int_le_numeral_iff)
  then have b: "\<bar>real_of_int now / 1000000\<bar> \<le> 4000000000" by simp
  then have "\<bar>real_of_int now / 1000000\<bar> + 1 \<le> 4000000001" by simp
  from fl_near_le[OF this] b show ?thesis unfolding ex by linarith
qed

text \<open>
  Storing \<open>x - t\<close> and reading \<open>(x - t) + t - (t - t) * (1 - r)\<close> back: three
  roundings, each below a microsecond by far for \<open>|x| \<le> 2 ^ 30\<close> and
  \<open>|t| \<le> 4000000001\<close>.
\<close>

lemma reread_bound:
  assumes x: "\<bar>x\<bar> \<le> 2 ^ 30" and t: "\<bar>t\<bar> \<le> 4000000001"
  shows "\<bar>fl (fl (fl (x - t) + t) - fl (fl (t - t) * fl (1 - r))) - x\<bar> \<le> 1 / 1000000"
proof -
  define a where "a = fl (x - t)"
  define b where "b = fl (a + t)"
  have x': "\<bar>x\<bar> \<le> 1073741824" using x by simp
  then have "\<bar>x - t\<bar> + 1 \<le> 5073741826" using t by linarith
  from fl_near_le[OF this] have e1: "\<bar>a - (x - t)\<bar> \<le> 6 / 10000000"
    unfolding a_def by linarith
  then have at: "\<bar>a + t\<bar> + 1 \<le> 1073741826" using x' by linarith
  from fl_near_le[OF this] have e2: "\<bar>b - (a + t)\<bar> \<le> 2 / 10000000"
    unfolding b_def by linarith
  then have "\<bar>b\<bar> + 1 \<le> 1073741827" using at by linarith
  from fl_near_le[OF this] have e3: "\<bar>fl b - b\<bar> \<le> 2 / 10000000"
    by linarith
  have "fl (fl (fl (x - t) + t) - fl (fl (t - t) * fl (1 - r))) = fl b"
    by (simp add: fl_zero a_def b_def)
  then show ?thesis using e1 e2 e3 by linarith
qed

lemma serial_kept:
  "load_queue_serial qs (set_clock_speed qs c s now_get now_set) = load_queue_serial qs c"
  "Clock.serial (set_clock_speed qs c s now_get now_set) = Clock.serial c"
  "Clock.paused (set_clock_speed qs c s now_get now_set) = Clock.paused c"
  by (simp_all add: set_clock_speed_def set_clock_fl_def set_clock_at_fl_def
      load_queue_serial_def split: serial_ptr.splits)

text \<open>What a clock reads after \<open>set_clock_speed\<close>, from what it read inside it.\<close>

lemma get_clock_fl_after:
  "get_clock_fl qs (set_clock_speed qs c s now_get now_set) now =
     (if load_queue_serial qs c \<noteq> Clock.serial c then NaN
      else if Clock.paused c \<noteq> 0 then get_clock_fl qs c now_get
      else sub_d (add_d (sub_d (get_clock_fl qs c now_get) (seconds_fl now_set))
                    (seconds_fl now))
             (mul_d (sub_d (seconds_fl now) (seconds_fl now_set)) (sub_d (Fin 1) s)))"
proof -
  have "get_clock_fl qs (set_clock_speed qs c s now_get now_set) now =
     (if load_queue_serial qs c \<noteq> Clock.serial c then NaN
      else if Clock.paused c \<noteq> 0 then pts (set_clock_speed qs c s now_get now_set)
      else sub_d (add_d (pts_drift (set_clock_speed qs c s now_get now_set)) (seconds_fl now))
             (mul_d (sub_d (seconds_fl now)
                       (last_updated (set_clock_speed qs c s now_get now_set)))
                (sub_d (Fin 1) (speed (set_clock_speed qs c s now_get now_set)))))"
    unfolding get_clock_fl_def[of qs "set_clock_speed qs c s now_get now_set"] serial_kept
      Let_def ..
  then show ?thesis
    by (simp add: set_clock_speed_def set_clock_fl_def set_clock_at_fl_def)
qed

lemmas clock_fl_eval =
  get_clock_fl_def set_clock_fl_def set_clock_at_fl_def seconds_fl_Fin
  load_queue_serial_def serials_at_def plain_clock_def plain_def Let_def

text \<open>
  C6, as the code has it, for clocks whose double fields are plain or NaN.
  \<open>sync_clock_to_slave\<close> leaves \<open>c\<close> as it is when the slave reads NaN. When the slave
  reads a number \<open>y\<close>, it sets \<open>c\<close> to \<open>y\<close> with the slave's serial (stamping
  \<open>last_updated\<close> with the wall clock and \<open>pts_drift\<close> with the rounded \<open>y - time\<close>) if
  \<open>c\<close> reads NaN, or reads a number \<open>x\<close> for which the double \<open>x - y\<close>, the rounded
  difference, is more than 10 in magnitude; it leaves \<open>c\<close> as it is if that double is at
  most 10 in magnitude. In terms of the exact difference: \<open>c\<close> is set when
  \<open>|x - y| \<ge> 10 + 10\<^sup>-\<^sup>9\<close> and left when \<open>|x - y| \<le> 10 - 10\<^sup>-\<^sup>9\<close>; in between the
  rounding decides.
\<close>

theorem sync_clock_to_slave_cases:
  assumes "plain_clock c" and "plain_clock slave"
  shows
  "(get_clock_fl qs slave now_slave = NaN \<longrightarrow>
      sync_clock_to_slave qs c slave now_c now_slave now_set = c)
   \<and> (get_clock_fl qs slave now_slave = Fin y \<longrightarrow> get_clock_fl qs c now_c = NaN \<longrightarrow>
      sync_clock_to_slave qs c slave now_c now_slave now_set
        = c\<lparr>pts := Fin y, last_updated := seconds_fl now_set,
             pts_drift := sub_d (Fin y) (seconds_fl now_set),
             Clock.serial := Clock.serial slave\<rparr>)
   \<and> (get_clock_fl qs slave now_slave = Fin y \<longrightarrow> get_clock_fl qs c now_c = Fin x \<longrightarrow>
      \<bar>fl (x - y)\<bar> > 10 \<longrightarrow>
      sync_clock_to_slave qs c slave now_c now_slave now_set
        = c\<lparr>pts := Fin y, last_updated := seconds_fl now_set,
             pts_drift := sub_d (Fin y) (seconds_fl now_set),
             Clock.serial := Clock.serial slave\<rparr>)
   \<and> (get_clock_fl qs slave now_slave = Fin y \<longrightarrow> get_clock_fl qs c now_c = Fin x \<longrightarrow>
      \<bar>fl (x - y)\<bar> \<le> 10 \<longrightarrow>
      sync_clock_to_slave qs c slave now_c now_slave now_set = c)
   \<and> (get_clock_fl qs slave now_slave = Fin y \<longrightarrow> get_clock_fl qs c now_c = Fin x \<longrightarrow>
      10 + 1 / 1000000000 \<le> \<bar>x - y\<bar> \<longrightarrow>
      sync_clock_to_slave qs c slave now_c now_slave now_set
        = c\<lparr>pts := Fin y, last_updated := seconds_fl now_set,
             pts_drift := sub_d (Fin y) (seconds_fl now_set),
             Clock.serial := Clock.serial slave\<rparr>)
   \<and> (get_clock_fl qs slave now_slave = Fin y \<longrightarrow> get_clock_fl qs c now_c = Fin x \<longrightarrow>
      \<bar>x - y\<bar> \<le> 10 - 1 / 1000000000 \<longrightarrow>
      sync_clock_to_slave qs c slave now_c now_slave now_set = c)"
  using fl_margin[of "x - y"]
  by (auto simp add: sync_clock_to_slave_def Let_def AV_NOSYNC_THRESHOLD_def
      set_clock_fl_def set_clock_at_fl_def)

text \<open>
  C6 as stated fails for a clock that reads NaN: the comparison
  \<open>|get(c) - get(slave)| > 10\<close> is false, yet the slave's value and serial are copied.
  This is what sets the external clock for the first time.
\<close>

theorem sync_copies_into_unset_clock:
  "plain_clock unset_clock \<and> plain_clock stale_clock
   \<and> \<not> (fabs (sub_d (get_clock_fl (serials_at 1) unset_clock 2000000)
                 (get_clock_fl (serials_at 1) stale_clock 2000000)) > AV_NOSYNC_THRESHOLD)
   \<and> \<not> isnan (get_clock_fl (serials_at 1) stale_clock 2000000)
   \<and> sync_clock_to_slave (serials_at 1) unset_clock stale_clock 2000000 2000000 2000000
        \<noteq> unset_clock
   \<and> pts (sync_clock_to_slave (serials_at 1) unset_clock stale_clock 2000000 2000000 2000000)
        = Fin 5
   \<and> Clock.serial
        (sync_clock_to_slave (serials_at 1) unset_clock stale_clock 2000000 2000000 2000000)
        = 1"
  by (simp add: sync_clock_to_slave_def AV_NOSYNC_THRESHOLD_def clock_fl_eval
      unset_clock_def init_clock_def set_clock_def set_clock_at_def seconds_Fin
      stale_clock_def fl_eval)

theorem sync_clock_to_slave_cases_witness:
  "plain_clock unset_clock \<and> plain_clock stale_clock
   \<and> plain_clock (stale_clock\<lparr>pts := Fin 20\<rparr>) \<and> plain_clock (stale_clock\<lparr>pts := Fin 15\<rparr>)
   \<and> get_clock_fl (serials_at 0) stale_clock 2000000 = NaN
   \<and> sync_clock_to_slave (serials_at 0) unset_clock stale_clock 2000000 2000000 2000000
        = unset_clock
   \<and> get_clock_fl (serials_at 1) stale_clock 2000000 = Fin 5
   \<and> get_clock_fl (serials_at 1) unset_clock 2000000 = NaN
   \<and> pts (sync_clock_to_slave (serials_at 1) unset_clock stale_clock 2000000 2000000 2000000)
        = Fin 5
   \<and> get_clock_fl (serials_at 1) (stale_clock\<lparr>pts := Fin 20\<rparr>) 2000000 = Fin 20
   \<and> \<bar>fl (20 - 5)\<bar> > 10 \<and> 10 + 1 / 1000000000 \<le> \<bar>20 - 5 :: real\<bar>
   \<and> pts (sync_clock_to_slave (serials_at 1) (stale_clock\<lparr>pts := Fin 20\<rparr>) stale_clock
              2000000 2000000 2000000) = Fin 5
   \<and> get_clock_fl (serials_at 1) (stale_clock\<lparr>pts := Fin 15\<rparr>) 2000000 = Fin 15
   \<and> \<bar>fl (15 - 5)\<bar> \<le> 10
   \<and> sync_clock_to_slave (serials_at 1) (stale_clock\<lparr>pts := Fin 15\<rparr>) stale_clock
              2000000 2000000 2000000 = stale_clock\<lparr>pts := Fin 15\<rparr>
   \<and> get_clock_fl (serials_at 1) (stale_clock\<lparr>pts := Fin 14\<rparr>) 2000000 = Fin 14
   \<and> \<bar>14 - 5 :: real\<bar> \<le> 10 - 1 / 1000000000
   \<and> sync_clock_to_slave (serials_at 1) (stale_clock\<lparr>pts := Fin 14\<rparr>) stale_clock
              2000000 2000000 2000000 = stale_clock\<lparr>pts := Fin 14\<rparr>"
  using sync_clock_to_slave_cases
      [of unset_clock stale_clock "serials_at 0" 2000000 2000000 2000000 0 0]
    sync_clock_to_slave_cases
      [of unset_clock stale_clock "serials_at 1" 2000000 2000000 2000000 5 0]
    sync_clock_to_slave_cases
      [of "stale_clock\<lparr>pts := Fin 20\<rparr>" stale_clock "serials_at 1" 2000000 2000000 2000000
          5 20]
    sync_clock_to_slave_cases
      [of "stale_clock\<lparr>pts := Fin 15\<rparr>" stale_clock "serials_at 1" 2000000 2000000 2000000
          5 15]
    sync_clock_to_slave_cases
      [of "stale_clock\<lparr>pts := Fin 14\<rparr>" stale_clock "serials_at 1" 2000000 2000000 2000000
          5 14]
  by (simp add: clock_fl_eval unset_clock_def init_clock_def set_clock_def set_clock_at_def
      seconds_Fin stale_clock_def fl_eval)

text \<open>
  C7, as the code has it, with all the wall clock readings involved the same, for a clock
  whose double fields are plain or NaN and a new speed that is plain or NaN.
  \<^item> A clock that reads NaN before \<open>set_clock_speed\<close> reads NaN after it.
  \<^item> A paused clock reads after it exactly what it read before.
  \<^item> A clock that reads a number \<open>x\<close> with \<open>|x| \<le> 2\<^sup>3\<^sup>0\<close> seconds, at a wall clock
    reading of at most \<open>4 * 10\<^sup>1\<^sup>5\<close> microseconds in magnitude, reads after a change to
    a speed that is a number within one microsecond of \<open>x\<close>: the value is stored as the
    double \<open>x - time\<close> and read back as \<open>(x - time) + time\<close>, which rounds three times.
\<close>

theorem set_clock_speed_continuous:
  assumes "plain_clock c" and "plain_double s"
  shows
  "(get_clock_fl qs c now = NaN \<longrightarrow>
      get_clock_fl qs (set_clock_speed qs c s now now) now = NaN)
   \<and> (Clock.paused c \<noteq> 0 \<longrightarrow>
      get_clock_fl qs (set_clock_speed qs c s now now) now = get_clock_fl qs c now)
   \<and> (get_clock_fl qs c now = Fin x \<longrightarrow> s = Fin r \<longrightarrow> \<bar>x\<bar> \<le> 2 ^ 30 \<longrightarrow>
      \<bar>now\<bar> \<le> 4000000000000000 \<longrightarrow>
      (\<exists>x'. get_clock_fl qs (set_clock_speed qs c s now now) now = Fin x'
            \<and> \<bar>x' - x\<bar> \<le> 1 / 1000000))"
proof (intro conjI impI)
  assume "get_clock_fl qs c now = NaN"
  then show "get_clock_fl qs (set_clock_speed qs c s now now) now = NaN"
    by (simp add: get_clock_fl_after)
next
  assume "Clock.paused c \<noteq> 0"
  then show "get_clock_fl qs (set_clock_speed qs c s now now) now = get_clock_fl qs c now"
    by (simp add: get_clock_fl_after) (simp add: get_clock_fl_def)
next
  assume v: "get_clock_fl qs c now = Fin x" and s: "s = Fin r" and x: "\<bar>x\<bar> \<le> 2 ^ 30"
    and now: "\<bar>now\<bar> \<le> 4000000000000000"
  have eq: "load_queue_serial qs c = Clock.serial c"
    using v by (auto simp: get_clock_fl_def split: if_splits)
  show "\<exists>x'. get_clock_fl qs (set_clock_speed qs c s now now) now = Fin x'
            \<and> \<bar>x' - x\<bar> \<le> 1 / 1000000"
  proof (cases "Clock.paused c \<noteq> 0")
    case True
    then have "get_clock_fl qs (set_clock_speed qs c s now now) now = Fin x"
      using v eq by (simp add: get_clock_fl_after)
    then show ?thesis by simp
  next
    case False
    let ?t = "fl (fl (real_of_int now) / 1000000)"
    have "get_clock_fl qs (set_clock_speed qs c s now now) now
            = Fin (fl (fl (fl (x - ?t) + ?t) - fl (fl (?t - ?t) * fl (1 - r))))"
      using False v eq s by (simp add: get_clock_fl_after seconds_fl_Fin)
    then show ?thesis using reread_bound[OF x seconds_fl_bound[OF now]] by simp
  qed
qed

text \<open>
  C7 as stated fails at a large wall clock reading. At \<open>2\<^sup>3\<^sup>5\<close> seconds the clock
  \<open>drifting_clock\<close> reads \<open>- 2\<^sup>-\<^sup>1\<^sup>9\<close> seconds, about \<open>- 1.9\<close> microseconds.
  \<open>set_clock_speed\<close> stores the drift \<open>- 2\<^sup>-\<^sup>1\<^sup>9 - 2\<^sup>3\<^sup>5\<close>, which rounds to \<open>- 2\<^sup>3\<^sup>5\<close>, and
  the clock then reads 0: a step of more than a microsecond.
\<close>

theorem speed_change_steps_late_clock:
  "plain_clock drifting_clock
   \<and> 0 \<le> late_now \<and> late_now \<le> INT64_MAX
   \<and> get_clock_fl (serials_at 0) drifting_clock late_now = Fin (- (1 / 524288))
   \<and> get_clock_fl (serials_at 0)
        (set_clock_speed (serials_at 0) drifting_clock (Fin 1) late_now late_now) late_now
        = Fin 0
   \<and> \<bar>0 - (- (1 / 524288))\<bar> > (1 / 1000000 :: real)"
  by (simp add: set_clock_speed_def clock_fl_eval drifting_clock_def late_now_def
      INT64_MAX_def fl_eval)

theorem set_clock_speed_continuous_witness:
  "plain_clock running_clock \<and> plain_double (Fin 1)
   \<and> get_clock_fl (serials_at 0) running_clock 4000000 = Fin 6
   \<and> \<bar>6\<bar> \<le> (2 ^ 30 :: real) \<and> \<bar>4000000\<bar> \<le> (4000000000000000 :: int)
   \<and> get_clock_fl (serials_at 0)
        (set_clock_speed (serials_at 0) running_clock (Fin 1) 4000000 4000000) 4000000
        = Fin 6
   \<and> plain_clock stale_clock
   \<and> Clock.paused stale_clock \<noteq> 0
   \<and> get_clock_fl (serials_at 1)
        (set_clock_speed (serials_at 1) stale_clock (Fin 1) 4000000 4000000) 4000000
        = Fin 5
   \<and> get_clock_fl (serials_at 0) stale_clock 4000000 = NaN
   \<and> get_clock_fl (serials_at 0)
        (set_clock_speed (serials_at 0) stale_clock (Fin 1) 4000000 4000000) 4000000 = NaN"
  using set_clock_speed_continuous [of running_clock "Fin 1" "serials_at 0" 4000000 6 1]
    set_clock_speed_continuous [of stale_clock "Fin 1" "serials_at 1" 4000000 5 1]
    set_clock_speed_continuous [of stale_clock "Fin 1" "serials_at 0" 4000000 5 1]
  by (simp add: set_clock_speed_def clock_fl_eval running_clock_def stale_clock_def
      fl_eval)

text \<open>A new speed that is NaN makes a running clock read NaN from then on.\<close>

lemma speed_nan_reads_nan:
  "get_clock_fl (serials_at 0) running_clock 4000000 = Fin 6
   \<and> get_clock_fl (serials_at 0)
        (set_clock_speed (serials_at 0) running_clock NaN 4000000 4000000) 4000000 = NaN"
  by (simp add: set_clock_speed_def clock_fl_eval running_clock_def fl_eval)

section \<open>Synchronisation\<close>

lemma FFMAX_Fin: "FFMAX (Fin a) (Fin b) = Fin (max a b)"
  by (simp add: FFMAX_def max_def)

lemma FFMIN_Fin: "FFMIN (Fin a) (Fin b) = Fin (min a b)"
  by (simp add: FFMIN_def min_def)

text \<open>The thresholds as numbers.\<close>

lemma threshold_values:
  "AV_SYNC_THRESHOLD_MIN = Fin (5764607523034235 / 144115188075855872)"
  "AV_SYNC_THRESHOLD_MAX = Fin (3602879701896397 / 36028797018963968)"
  "AV_SYNC_FRAMEDUP_THRESHOLD = Fin (3602879701896397 / 36028797018963968)"
  by (simp_all add: AV_SYNC_THRESHOLD_MIN_def AV_SYNC_THRESHOLD_MAX_def
      AV_SYNC_FRAMEDUP_THRESHOLD_def fl_tenth fl_twentyfifth)

lemmas state_eval =
  get_clock_fl_def get_master_clock_fl_def get_master_sync_type_def queue_serials_def
  load_queue_serial_def held_clock_def started_queue_def packet_queue_start_def
  packet_queue_put_private_def packet_queue_init_def zero_PacketQueue_def wrap32_def
  wrap64_def flush_pkt_def Let_def AV_SYNC_VIDEO_MASTER_def AV_SYNC_AUDIO_MASTER_def
  AV_SYNC_EXTERNAL_CLOCK_def dyadic_state_def sample_state_def plain_clocks_def
  plain_clock_def plain_def

text \<open>
  C4, as the code has it, for a delay that is a plain double and clocks whose double
  fields are plain or NaN. When video is not the master, \<open>diff\<close> is the double
  \<open>get_clock(vidclk) - get_master_clock\<close> and \<open>threshold = clip(delay, 0.04, 0.1)\<close>, where
  \<open>0.04\<close> and \<open>0.1\<close> are the doubles \<open>5764607523034235 / 2\<^sup>5\<^sup>7\<close> and
  \<open>3602879701896397 / 2\<^sup>5\<^sup>5\<close>. For numbers \<open>diff\<close> and \<open>max_frame_duration\<close> the returned
  delay is unchanged when \<open>|diff| \<ge> max_frame_duration\<close>, and otherwise it is the
  larger of 0 and the double \<open>delay + diff\<close> when \<open>diff \<le> -threshold\<close>, the double
  \<open>delay + diff\<close> when \<open>diff \<ge> threshold\<close> and \<open>delay > 0.1\<close>, \<open>2 * delay\<close> (which is
  exact) when \<open>diff \<ge> threshold\<close> and \<open>delay \<le> 0.1\<close>, and unchanged in the remaining
  case.
\<close>

theorem compute_target_delay_cases:
  assumes "get_master_sync_type is \<noteq> AV_SYNC_VIDEO_MASTER"
    and "sub_d (get_clock_fl (queue_serials is) (vidclk is) now_vid)
           (get_master_clock_fl is now_master) = Fin diff"
    and "max_frame_duration is = Fin max_dur"
    and "plain delay" and "plain_clocks is"
  shows "compute_target_delay (Fin delay) is now_vid now_master =
     Fin (let threshold = max (5764607523034235 / 144115188075855872)
                            (min (3602879701896397 / 36028797018963968) delay)
          in if \<not> \<bar>diff\<bar> < max_dur then delay
             else if diff \<le> - threshold then max 0 (fl (delay + diff))
             else if diff \<ge> threshold \<and> delay > 3602879701896397 / 36028797018963968
               then fl (delay + diff)
             else if diff \<ge> threshold \<and> delay \<le> 3602879701896397 / 36028797018963968
               then 2 * delay
             else delay)"
proof -
  have thr: "FFMAX AV_SYNC_THRESHOLD_MIN (FFMIN AV_SYNC_THRESHOLD_MAX (Fin delay))
               = Fin (max (5764607523034235 / 144115188075855872)
                        (min (3602879701896397 / 36028797018963968) delay))"
    by (simp add: FFMAX_Fin FFMIN_Fin threshold_values)
  have pos: "0 < max (5764607523034235 / 144115188075855872)
                     (min (3602879701896397 / 36028797018963968) delay)" by simp
  have twice: "fl (2 * delay) = 2 * delay"
    using assms(4) by (simp add: plain_def fl_twice)
  show ?thesis
    using assms(1-3) pos twice unfolding compute_target_delay_def Let_def thr
    by (auto simp add: FFMAX_Fin threshold_values max_def min_def)
qed

text \<open>
  C4 as stated fails at \<open>|diff| = max_frame_duration\<close>: with \<open>diff = -10\<close>,
  \<open>max_frame_duration = 10\<close> and \<open>delay = 1 / 16\<close> the code keeps the delay, where the
  claim's \<open>max(0, delay + diff)\<close> is 0.
\<close>

theorem delay_kept_at_max_frame_duration:
  "get_master_sync_type dyadic_state \<noteq> AV_SYNC_VIDEO_MASTER
   \<and> plain (1 / 16) \<and> plain_clocks dyadic_state
   \<and> sub_d (get_clock_fl (queue_serials dyadic_state) (vidclk dyadic_state) 0)
        (get_master_clock_fl dyadic_state 0) = Fin (- 10)
   \<and> max_frame_duration dyadic_state = Fin 10
   \<and> compute_target_delay (Fin (1 / 16)) dyadic_state 0 0 = Fin (1 / 16)
   \<and> spec_target_delay (1 / 16) (- 10) 10 = 0
   \<and> compute_target_delay (Fin (1 / 16)) dyadic_state 0 0
        \<noteq> Fin (spec_target_delay (1 / 16) (- 10) 10)"
  by (simp add: compute_target_delay_def spec_target_delay_def state_eval
      FFMAX_Fin FFMIN_Fin threshold_values fl_eval)

theorem compute_target_delay_cases_witness:
  "get_master_sync_type dyadic_state \<noteq> AV_SYNC_VIDEO_MASTER
   \<and> plain (1 / 16) \<and> plain_clocks dyadic_state
   \<and> sub_d (get_clock_fl (queue_serials dyadic_state) (vidclk dyadic_state) 0)
        (get_master_clock_fl dyadic_state 0) = Fin (- 10)
   \<and> compute_target_delay (Fin (1 / 16)) (dyadic_state\<lparr>max_frame_duration := Fin 3600\<rparr>) 0 0
        = Fin 0
   \<and> plain (3602879701896397 / 36028797018963968)
   \<and> plain_clocks (dyadic_state\<lparr>vidclk := held_clock 20 (Queue_serial The_videoq)\<rparr>)
   \<and> sub_d (get_clock_fl (queue_serials dyadic_state)
               (held_clock 20 (Queue_serial The_videoq)) 0)
        (get_master_clock_fl dyadic_state 0) = Fin 10
   \<and> compute_target_delay (Fin (3602879701896397 / 36028797018963968))
        (dyadic_state\<lparr>vidclk := held_clock 20 (Queue_serial The_videoq),
                       max_frame_duration := Fin 3600\<rparr>) 0 0
        = Fin (3602879701896397 / 18014398509481984)"
  using compute_target_delay_cases
    [of "dyadic_state\<lparr>max_frame_duration := Fin 3600\<rparr>" 0 0 "- 10" 3600 "1 / 16"]
    compute_target_delay_cases
    [of "dyadic_state\<lparr>vidclk := held_clock 20 (Queue_serial The_videoq),
                        max_frame_duration := Fin 3600\<rparr>" 0 0 10 3600
        "3602879701896397 / 36028797018963968"]
  by (simp add: state_eval fl_eval)

lemma trunc_real_bound:
  assumes "\<bar>x\<bar> < real_of_int b"
  shows "- b \<le> trunc_real x \<and> trunc_real x \<le> b"
proof (cases "0 \<le> x")
  case True
  then have lo: "0 \<le> \<lfloor>x\<rfloor>" by simp
  have "real_of_int \<lfloor>x\<rfloor> \<le> x" by simp
  then have "real_of_int \<lfloor>x\<rfloor> < real_of_int b" using assms True by linarith
  then have hi: "\<lfloor>x\<rfloor> < b" by (simp only: of_int_less_iff)
  have "trunc_real x = \<lfloor>x\<rfloor>" using True by (simp add: trunc_real_def)
  then show ?thesis using lo hi by arith
next
  case False
  then have hi: "\<lceil>x\<rceil> \<le> 0" by (simp add: ceiling_le_iff)
  have "x \<le> real_of_int \<lceil>x\<rceil>" by simp
  then have "real_of_int (- b) < real_of_int \<lceil>x\<rceil>" using assms False by simp linarith
  then have lo: "- b < \<lceil>x\<rceil>" by (simp only: of_int_less_iff)
  have "trunc_real x = \<lceil>x\<rceil>" using False by (simp add: trunc_real_def)
  then show ?thesis using lo hi by arith
qed

lemma sample_product_bound:
  assumes "\<bar>diff\<bar> < 10" "\<bar>f\<bar> \<le> (200000000::int)"
  shows "\<bar>fl (diff * real_of_int f)\<bar> < real_of_int 2000000001"
proof -
  have "\<bar>diff * real_of_int f\<bar> = \<bar>diff\<bar> * \<bar>real_of_int f\<bar>" by (simp add: abs_mult)
  also have "\<dots> \<le> \<bar>diff\<bar> * 200000000"
    using assms(2) by (intro mult_left_mono) auto
  also have "\<dots> < 10 * 200000000" using assms(1) by simp
  finally have "\<bar>diff * real_of_int f\<bar> < 2000000000" by simp
  then show ?thesis using fl_near_sum[of "diff * real_of_int f"] by simp
qed

lemma c_div_nonneg: "0 \<le> a \<Longrightarrow> 0 < b \<Longrightarrow> c_div a b = a div b"
  by (simp add: c_div_def)

text \<open>
  C5, as the code has it, for clocks and filter fields that are plain doubles or NaN.
  When audio is not the master and \<open>diff\<close> is the double
  \<open>get_clock(audclk) - get_master_clock\<close>:
  \<^item> if \<open>|diff| < 10\<close>, at least 20 measurements were accumulated and the average
    \<open>(diff + coef * cum) * (1 - coef)\<close>, each operation rounded, is at least the
    threshold in absolute value, the result for \<open>n\<close> samples is
    \<open>av_clip(n + trunc(diff * freq), n * 90 / 100, n * 110 / 100)\<close>, with the double
    product truncated towards zero and integer divisions, and the accumulator is
    updated (for \<open>0 \<le> n \<le> 19000000\<close> and \<open>|freq| \<le> 200000000\<close>, where the \<open>int\<close>
    arithmetic does not overflow);
  \<^item> if \<open>|diff| \<ge> 10\<close>, or \<open>diff\<close> is NaN, the accumulator and the count are reset
    and \<open>n\<close> is returned.
\<close>

theorem synchronize_audio_cases:
  assumes "get_master_sync_type is \<noteq> AV_SYNC_AUDIO_MASTER"
    and "plain_clocks is"
    and "plain_double (audio_diff_avg_coef is)" and "plain_double (audio_diff_cum is)"
  shows
  "(sub_d (get_clock_fl (queue_serials is) (audclk is) now_aud)
      (get_master_clock_fl is now_master) = Fin diff \<longrightarrow>
    \<bar>diff\<bar> < 10 \<longrightarrow> AUDIO_DIFF_AVG_NB \<le> audio_diff_avg_count is \<longrightarrow>
    audio_diff_avg_coef is = Fin a \<longrightarrow> audio_diff_cum is = Fin cum \<longrightarrow>
    audio_diff_threshold is = Fin th \<longrightarrow>
    th \<le> \<bar>fl (fl (diff + fl (a * cum)) * fl (1 - a))\<bar> \<longrightarrow>
    0 \<le> n \<longrightarrow> n \<le> 19000000 \<longrightarrow> \<bar>freq (audio_src is)\<bar> \<le> 200000000 \<longrightarrow>
    synchronize_audio is n now_aud now_master =
      Some (av_clip (n + trunc_real (fl (diff * real_of_int (freq (audio_src is)))))
              (n * 90 div 100) (n * 110 div 100),
            is\<lparr>audio_diff_cum := Fin (fl (diff + fl (a * cum)))\<rparr>))
   \<and> (sub_d (get_clock_fl (queue_serials is) (audclk is) now_aud)
      (get_master_clock_fl is now_master) = Fin diff \<longrightarrow>
    \<bar>diff\<bar> \<ge> 10 \<longrightarrow>
    synchronize_audio is n now_aud now_master =
      Some (n, is\<lparr>audio_diff_avg_count := 0, audio_diff_cum := Fin 0\<rparr>))
   \<and> (sub_d (get_clock_fl (queue_serials is) (audclk is) now_aud)
      (get_master_clock_fl is now_master) = NaN \<longrightarrow>
    synchronize_audio is n now_aud now_master =
      Some (n, is\<lparr>audio_diff_avg_count := 0, audio_diff_cum := Fin 0\<rparr>))"
proof (intro conjI impI)
  assume d: "sub_d (get_clock_fl (queue_serials is) (audclk is) now_aud)
      (get_master_clock_fl is now_master) = Fin diff"
    and small: "\<bar>diff\<bar> < 10" and cnt: "AUDIO_DIFF_AVG_NB \<le> audio_diff_avg_count is"
    and a: "audio_diff_avg_coef is = Fin a" and cum: "audio_diff_cum is = Fin cum"
    and th: "audio_diff_threshold is = Fin th"
      "th \<le> \<bar>fl (fl (diff + fl (a * cum)) * fl (1 - a))\<bar>"
    and n: "0 \<le> n" "n \<le> 19000000" and f: "\<bar>freq (audio_src is)\<bar> \<le> 200000000"
  let ?k = "trunc_real (fl (diff * real_of_int (freq (audio_src is))))"
  have k: "- 2000000001 \<le> ?k \<and> ?k \<le> 2000000001"
    using trunc_real_bound[OF sample_product_bound[OF small f]] by simp
  then have cast: "int_of_double (mul_d (Fin diff) (double_of_int (freq (audio_src is))))
                     = Some ?k"
    by (simp add: double_of_int_def INT_MIN_def INT_MAX_def)
  have w1: "wrap32 (n + ?k) = n + ?k"
    using k n by (intro wrap32_id) (simp_all add: INT_MIN_def INT_MAX_def)
  have w2: "wrap32 (n * 90) = n * 90" "wrap32 (n * 110) = n * 110"
    using n by (simp_all add: wrap32_id INT_MIN_def INT_MAX_def)
  have dv: "c_div (n * 90) 100 = n * 90 div 100" "c_div (n * 110) 100 = n * 110 div 100"
    using n by (simp_all add: c_div_nonneg)
  show "synchronize_audio is n now_aud now_master =
      Some (av_clip (n + ?k) (n * 90 div 100) (n * 110 div 100),
            is\<lparr>audio_diff_cum := Fin (fl (diff + fl (a * cum)))\<rparr>)"
    using assms(1) d small cnt a cum th cast w1 w2 dv
    by (simp add: synchronize_audio_def Let_def AV_NOSYNC_THRESHOLD_def
        SAMPLE_CORRECTION_PERCENT_MAX_def)
next
  assume "sub_d (get_clock_fl (queue_serials is) (audclk is) now_aud)
      (get_master_clock_fl is now_master) = Fin diff" "\<bar>diff\<bar> \<ge> 10"
  then show "synchronize_audio is n now_aud now_master =
      Some (n, is\<lparr>audio_diff_avg_count := 0, audio_diff_cum := Fin 0\<rparr>)"
    using assms(1) by (simp add: synchronize_audio_def Let_def AV_NOSYNC_THRESHOLD_def)
next
  assume "sub_d (get_clock_fl (queue_serials is) (audclk is) now_aud)
      (get_master_clock_fl is now_master) = NaN"
  then show "synchronize_audio is n now_aud now_master =
      Some (n, is\<lparr>audio_diff_avg_count := 0, audio_diff_cum := Fin 0\<rparr>)"
    using assms(1) by (simp add: synchronize_audio_def Let_def AV_NOSYNC_THRESHOLD_def)
qed

text \<open>
  C5 as stated fails where rounding and truncation differ: for \<open>diff = 51 / 4096\<close> at
  1024 Hz the product is \<open>12.75\<close> and the code adds \<open>(int)12.75 = 12\<close> samples to
  1000, the claim's \<open>round(diff * src_rate)\<close> adds 13.
\<close>

theorem sample_count_truncated_not_rounded:
  "get_master_sync_type dyadic_state \<noteq> AV_SYNC_AUDIO_MASTER
   \<and> plain_clocks dyadic_state
   \<and> sub_d (get_clock_fl (queue_serials dyadic_state) (audclk dyadic_state) 0)
        (get_master_clock_fl dyadic_state 0) = Fin (51 / 4096)
   \<and> AUDIO_DIFF_AVG_NB \<le> audio_diff_avg_count dyadic_state
   \<and> freq (audio_src dyadic_state) = 1024
   \<and> synchronize_audio dyadic_state 1000 0 0
        = Some (1012, dyadic_state\<lparr>audio_diff_cum := Fin (51 / 4096)\<rparr>)
   \<and> spec_wanted_nb_samples 1000 (51 / 4096) (freq (audio_src dyadic_state)) = 1013"
  by (simp add: synchronize_audio_def spec_wanted_nb_samples_def state_eval
      AV_NOSYNC_THRESHOLD_def AUDIO_DIFF_AVG_NB_def SAMPLE_CORRECTION_PERCENT_MAX_def
      double_of_int_def trunc_real_def INT_MIN_def INT_MAX_def c_div_def av_clip_def
      round_def fl_eval)

theorem synchronize_audio_cases_witness:
  "get_master_sync_type dyadic_state \<noteq> AV_SYNC_AUDIO_MASTER
   \<and> plain_clocks dyadic_state
   \<and> plain_double (audio_diff_avg_coef dyadic_state)
   \<and> plain_double (audio_diff_cum dyadic_state)
   \<and> sub_d (get_clock_fl (queue_serials dyadic_state) (audclk dyadic_state) 0)
        (get_master_clock_fl dyadic_state 0) = Fin (51 / 4096)
   \<and> \<bar>51 / 4096\<bar> < (10::real)
   \<and> AUDIO_DIFF_AVG_NB \<le> audio_diff_avg_count dyadic_state
   \<and> audio_diff_avg_coef dyadic_state = Fin (1 / 2)
   \<and> audio_diff_cum dyadic_state = Fin 0
   \<and> audio_diff_threshold dyadic_state = Fin (1 / 1024)
   \<and> (1 / 1024 :: real) \<le> \<bar>fl (fl (51 / 4096 + fl (1 / 2 * 0)) * fl (1 - 1 / 2))\<bar>
   \<and> \<bar>freq (audio_src dyadic_state)\<bar> \<le> 200000000
   \<and> synchronize_audio dyadic_state 1000 0 0
        = Some (1012, dyadic_state\<lparr>audio_diff_cum := Fin (51 / 4096)\<rparr>)
   \<and> plain_clocks (dyadic_state\<lparr>audclk := held_clock 30 (Queue_serial The_audioq)\<rparr>)
   \<and> sub_d (get_clock_fl (queue_serials dyadic_state)
               (held_clock 30 (Queue_serial The_audioq)) 0)
        (get_master_clock_fl dyadic_state 0) = Fin 20
   \<and> synchronize_audio (dyadic_state\<lparr>audclk := held_clock 30 (Queue_serial The_audioq)\<rparr>)
        1000 0 0
        = Some (1000, dyadic_state\<lparr>audclk := held_clock 30 (Queue_serial The_audioq),
                                   audio_diff_avg_count := 0, audio_diff_cum := Fin 0\<rparr>)"
  using synchronize_audio_cases
      [of dyadic_state 0 0 "51 / 4096" "1 / 2" 0 "1 / 1024" 1000]
    synchronize_audio_cases
      [of "dyadic_state\<lparr>audclk := held_clock 30 (Queue_serial The_audioq)\<rparr>" 0 0 20 0 0 0 1000]
  by (simp add: state_eval AUDIO_DIFF_AVG_NB_def trunc_real_def av_clip_def fl_eval)
section \<open>A failed seek\<close>

lemma queue_serials_upd [simp]:
  "queue_serials (is\<lparr>seek_req := a\<rparr>) = queue_serials is"
  "queue_serials (is\<lparr>queue_attachments_req := a\<rparr>) = queue_serials is"
  "queue_serials (is\<lparr>eof := a\<rparr>) = queue_serials is"
  "queue_serials (is\<lparr>frame_timer := t\<rparr>) = queue_serials is"
  "queue_serials (is\<lparr>vidclk := c\<rparr>) = queue_serials is"
  "queue_serials (is\<lparr>extclk := c\<rparr>) = queue_serials is"
  by (rule ext, simp add: queue_serials_def split: pq_name.split)+

text \<open>
  C8, as the code has it. When a seek is pending and \<open>avformat_seek_file\<close> returns
  an error, the failure is logged, no packet queue is touched (nothing is flushed, no
  flush packet is enqueued) and the external clock is not set to the seek target; but
  the request is consumed all the same: \<open>seek_req\<close> is cleared,
  \<open>queue_attachments_req\<close> is set and \<open>eof\<close> is cleared, and when the player is
  paused it steps to the next frame, which unpauses it, sets \<open>step\<close> and stamps the
  external clock again with its own reading. When the player is not paused nothing
  else changes.
\<close>

theorem seek_failure_effects:
  assumes "seek_req is \<noteq> 0" and "seek_ret w is < 0"
  shows
  "fst (read_thread_loop_handle_seek w is) = 0
   \<and> snd (snd (read_thread_loop_handle_seek w is))
        = [url w @ '': error while seeking'' @ [CHR 0x0A]]
   \<and> fst (snd (read_thread_loop_handle_seek w is))
        = (if VideoState.paused is \<noteq> 0
           then step_to_next_frame
                  (is\<lparr>seek_req := 0, queue_attachments_req := 1, eof := 0\<rparr>) (step_reads w)
           else is\<lparr>seek_req := 0, queue_attachments_req := 1, eof := 0\<rparr>)
   \<and> audioq (fst (snd (read_thread_loop_handle_seek w is))) = audioq is
   \<and> videoq (fst (snd (read_thread_loop_handle_seek w is))) = videoq is
   \<and> subtitleq (fst (snd (read_thread_loop_handle_seek w is))) = subtitleq is
   \<and> seek_req (fst (snd (read_thread_loop_handle_seek w is))) = 0
   \<and> queue_attachments_req (fst (snd (read_thread_loop_handle_seek w is))) = 1
   \<and> eof (fst (snd (read_thread_loop_handle_seek w is))) = 0
   \<and> (VideoState.paused is = 0 \<longrightarrow>
        extclk (fst (snd (read_thread_loop_handle_seek w is))) = extclk is
        \<and> VideoState.paused (fst (snd (read_thread_loop_handle_seek w is))) = 0
        \<and> step (fst (snd (read_thread_loop_handle_seek w is))) = step is)
   \<and> (VideoState.paused is \<noteq> 0 \<longrightarrow>
        extclk (fst (snd (read_thread_loop_handle_seek w is)))
          = (set_clock (extclk is)
               (get_clock (queue_serials is) (extclk is) (now_extclk_get (step_reads w)))
               (Clock.serial (extclk is)) (now_extclk_set (step_reads w)))
            \<lparr>Clock.paused := 0\<rparr>
        \<and> VideoState.paused (fst (snd (read_thread_loop_handle_seek w is))) = 0
        \<and> step (fst (snd (read_thread_loop_handle_seek w is))) = 1)"
  using assms
  by (simp add: read_thread_loop_handle_seek_def Let_def step_to_next_frame_def
      stream_toggle_pause_def)

text \<open>
  C8 as stated fails: after a failed seek the pending-seek flag, the attachment
  request and the end-of-file flag differ from what they were.
\<close>

theorem seek_failure_clears_request:
  "seek_req sample_state \<noteq> 0
   \<and> seek_ret failing_world sample_state < 0
   \<and> seek_req (fst (snd (read_thread_loop_handle_seek failing_world sample_state)))
        \<noteq> seek_req sample_state
   \<and> queue_attachments_req (fst (snd (read_thread_loop_handle_seek failing_world sample_state)))
        \<noteq> queue_attachments_req sample_state
   \<and> eof (fst (snd (read_thread_loop_handle_seek failing_world sample_state)))
        \<noteq> eof sample_state
   \<and> fst (snd (read_thread_loop_handle_seek failing_world sample_state)) \<noteq> sample_state"
  by (simp add: read_thread_loop_handle_seek_def Let_def seek_ret_def failing_world_def
      sample_state_def)

theorem seek_failure_effects_witness:
  "seek_req sample_state \<noteq> 0
   \<and> seek_ret failing_world sample_state < 0
   \<and> VideoState.paused sample_state = 0
   \<and> snd (snd (read_thread_loop_handle_seek failing_world sample_state))
        = [''movie.mkv: error while seeking'' @ [CHR 0x0A]]
   \<and> videoq (fst (snd (read_thread_loop_handle_seek failing_world sample_state)))
        = videoq sample_state
   \<and> extclk (fst (snd (read_thread_loop_handle_seek failing_world sample_state)))
        = extclk sample_state
   \<and> seek_req (sample_state\<lparr>VideoState.paused := 1\<rparr>) \<noteq> 0
   \<and> seek_ret failing_world (sample_state\<lparr>VideoState.paused := 1\<rparr>) < 0
   \<and> VideoState.paused (sample_state\<lparr>VideoState.paused := 1\<rparr>) \<noteq> 0
   \<and> step (fst (snd (read_thread_loop_handle_seek failing_world
                        (sample_state\<lparr>VideoState.paused := 1\<rparr>)))) = 1
   \<and> VideoState.paused (fst (snd (read_thread_loop_handle_seek failing_world
                        (sample_state\<lparr>VideoState.paused := 1\<rparr>)))) = 0"
  using seek_failure_effects [of sample_state failing_world]
    seek_failure_effects [of "sample_state\<lparr>VideoState.paused := 1\<rparr>" failing_world]
  by (simp add: seek_ret_def failing_world_def sample_state_def step_to_next_frame_def
      stream_toggle_pause_def Let_def)

section \<open>Volume steps\<close>

lemma rint_between: "\<lfloor>x\<rfloor> \<le> rint x \<and> rint x \<le> \<lceil>x\<rceil>"
proof (cases "x = real_of_int \<lfloor>x\<rfloor>")
  case True
  then have "rint x = \<lfloor>x\<rfloor>" by (simp add: rint_def Let_def)
  moreover have "\<lfloor>x\<rfloor> \<le> \<lceil>x\<rceil>" by (rule floor_le_ceiling)
  ultimately show ?thesis by simp
next
  case False
  then have "\<lceil>x\<rceil> = \<lfloor>x\<rfloor> + 1"
    by (metis ceiling_altdef)
  then show ?thesis by (simp add: rint_def Let_def)
qed

lemma rint_ge: "real_of_int v \<le> x \<Longrightarrow> v \<le> rint x"
  using rint_between[of x] by (meson le_floor_iff order_trans)

lemma rint_le: "x \<le> real_of_int v \<Longrightarrow> rint x \<le> v"
  using rint_between[of x] by (meson ceiling_le_iff order_trans)

lemma rint_small: "0 \<le> x \<Longrightarrow> x < 1 / 2 \<Longrightarrow> rint x = 0"
proof -
  assume a: "0 \<le> x" "x < 1 / 2"
  then have "\<lfloor>x\<rfloor> = 0" by (simp add: floor_eq_iff)
  then show ?thesis using a by (simp add: rint_def Let_def)
qed

lemma step_up: "1 < (10::real) powr (3 / 80)" "(10::real) powr (3 / 80) < 2"
proof -
  show "1 < (10::real) powr (3 / 80)" by simp
  have "(10::real) powr (3 / 80) < 10 powr (1 / 4)"
    by (rule powr_less_mono) simp_all
  also have "\<dots> < (16::real) powr (1 / 4)"
    by (rule powr_less_mono2) simp_all
  also have "\<dots> = ((2::real) powr 4) powr (1 / 4)" by simp
  also have "\<dots> = 2" by (simp only: powr_powr) simp
  finally show "(10::real) powr (3 / 80) < 2" .
qed

lemma step_down: "0 < (10::real) powr (- (3 / 80))" "(10::real) powr (- (3 / 80)) < 1"
proof -
  show "0 < (10::real) powr (- (3 / 80))" by simp
  have "(10::real) powr (- (3 / 80)) = inverse (10 powr (3 / 80))" by (rule powr_minus)
  also have "\<dots> < 1" using step_up(1) by (simp add: inverse_less_1_iff)
  finally show "(10::real) powr (- (3 / 80)) < 1" .
qed

text \<open>
  For a positive volume the argument of \<open>lrint\<close> is the volume times
  \<open>10 ^ (s * 3 / 80)\<close>, where \<open>s\<close> is the sign.
\<close>

lemma volume_arg:
  assumes "0 < v" "0 < m"
  shows "real_of_int m * 10 powr ((20 * ln (real_of_int v / real_of_int m) / ln 10 + s * (3 / 4)) / 20)
         = real_of_int v * 10 powr (s * (3 / 80))"
proof -
  let ?r = "real_of_int v / real_of_int m"
  have r: "0 < ?r" using assms by simp
  have "(20 * ln ?r / ln 10 + s * (3 / 4)) / 20 = ln ?r / ln 10 + s * (3 / 80)"
    by (simp add: field_simps)
  then have "10 powr ((20 * ln ?r / ln 10 + s * (3 / 4)) / 20)
      = 10 powr (ln ?r / ln 10) * 10 powr (s * (3 / 80))"
    by (simp only: powr_add)
  also have "10 powr (ln ?r / ln 10) = ?r"
    using r by (simp add: powr_def)
  finally show ?thesis using assms by simp
qed

lemma new_volume_pos:
  assumes "0 < v" "v \<le> m" "m < 1073741824" "sign = 1 \<or> sign = - 1"
  shows "new_volume m v sign SDL_VOLUME_STEP
           = Some (rint (real_of_int v * 10 powr (real_of_int sign * (3 / 80))))
         \<and> 0 \<le> rint (real_of_int v * 10 powr (real_of_int sign * (3 / 80)))
         \<and> (sign = 1 \<longrightarrow> v \<le> rint (real_of_int v * 10 powr (real_of_int sign * (3 / 80))))
         \<and> (sign = - 1 \<longrightarrow> rint (real_of_int v * 10 powr (real_of_int sign * (3 / 80))) \<le> v)"
proof -
  let ?x = "real_of_int v * 10 powr (real_of_int sign * (3 / 80))"
  have m: "0 < m" using assms by simp
  have ratio: "0 < real_of_int v / real_of_int m" using assms m by simp
  have c: "0 < (10::real) powr (real_of_int sign * (3 / 80))"
      "(10::real) powr (real_of_int sign * (3 / 80)) < 2"
    using assms(4) step_up step_down by auto
  have x0: "0 \<le> ?x" using assms(1) by simp
  have v0: "0 \<le> real_of_int v" using assms(1) by simp
  have "(10::real) powr (real_of_int sign * (3 / 80)) \<le> 2" by (rule less_imp_le[OF c(2)])
  from mult_left_mono[OF this v0] have "?x \<le> real_of_int v * 2" .
  then have x2: "?x \<le> real_of_int (2 * v)" by simp
  have lo: "0 \<le> rint ?x" using rint_ge[of 0 ?x] x0 by simp
  have hi: "rint ?x \<le> 2 * v" using rint_le[OF x2] .
  have up: "v \<le> rint ?x" if "sign = 1"
  proof -
    have "(1::real) \<le> 10 powr (3 / 80)" by (rule less_imp_le[OF step_up(1)])
    from mult_left_mono[OF this v0]
    have "real_of_int v * 1 \<le> real_of_int v * 10 powr (3 / 80)" .
    then show ?thesis using that by (intro rint_ge) simp
  qed
  have down: "rint ?x \<le> v" if "sign = - 1"
  proof -
    have "(10::real) powr (- (3 / 80)) \<le> 1" by (rule less_imp_le[OF step_down(2)])
    from mult_left_mono[OF this v0]
    have "real_of_int v * 10 powr (- (3 / 80)) \<le> real_of_int v * 1" .
    then show ?thesis using that by (intro rint_le) simp
  qed
  have w: "wrap32 (rint ?x) = rint ?x"
    using lo hi assms by (intro wrap32_id) (simp_all add: INT_MIN_def INT_MAX_def)
  have rng: "INT64_MIN \<le> rint ?x \<and> rint ?x \<le> INT64_MAX"
    using lo hi assms by (simp add: INT64_MIN_def INT64_MAX_def)
  have arg: "real_of_int m
      * 10 powr ((20 * ln (real_of_int v / real_of_int m) / ln 10 + real_of_int sign * (3 / 4)) / 20)
      = ?x"
    using volume_arg[OF assms(1) m] .
  have "new_volume m v sign SDL_VOLUME_STEP = Some (rint ?x)"
    using assms(1) m ratio rng w arg
    by (simp add: new_volume_def SDL_VOLUME_STEP_def double_of_int_def Let_def)
  then show ?thesis using lo up down by simp
qed

lemma new_volume_zero:
  assumes "0 < m" "m < 1073741824" "sign = 1 \<or> sign = - 1"
  shows "new_volume m 0 sign SDL_VOLUME_STEP = Some 0"
proof -
  let ?e = "(- 1000 + real_of_int sign * (3 / 4)) / 20"
  let ?x = "real_of_int m * 10 powr ?e"
  have "?e \<le> - 10" using assms(3) by auto
  then have "(10::real) powr ?e \<le> 10 powr (- 10)"
    by (intro powr_mono) simp_all
  also have "(10::real) powr (- 10) = inverse (10 ^ 10)"
    by (simp add: powr_minus)
  finally have p: "(10::real) powr ?e \<le> inverse (10 ^ 10)" .
  have m0: "0 \<le> real_of_int m" using assms(1) by simp
  have "?x \<le> real_of_int m * inverse (10 ^ 10)"
    by (rule mult_left_mono[OF p m0])
  also have "\<dots> < 1 / 2" using assms(2) by simp
  finally have small: "?x < 1 / 2" .
  have nonneg: "0 \<le> ?x" using m0 by simp
  have "rint ?x = 0" by (rule rint_small[OF nonneg small])
  then show ?thesis
    by (simp add: new_volume_def SDL_VOLUME_STEP_def double_of_int_def Let_def
        INT64_MIN_def INT64_MAX_def wrap32_def)
qed

lemma av_clip_range: "amin \<le> amax \<Longrightarrow> amin \<le> av_clip a amin amax \<and> av_clip a amin amax \<le> amax"
  by (simp add: av_clip_def)

text \<open>
  C10. Let \<open>SDL_MIX_MAXVOLUME\<close> be any positive \<open>maxvol\<close> below \<open>2^30\<close> (SDL's is
  128), the current volume \<open>v\<close> in \<open>[0, maxvol]\<close> and the sign 1 or -1. With the step of
  0.75 dB \<open>update_volume\<close> has a result: the logarithmic step gives a volume \<open>nv\<close>,
  the new volume is \<open>av_clip\<close> to \<open>[0, maxvol]\<close> of \<open>v + sign\<close> when \<open>nv = v\<close> and of \<open>nv\<close>
  otherwise, it lies in \<open>[0, maxvol]\<close>, and for \<open>0 < v < maxvol\<close> it is above \<open>v\<close> for
  the sign 1 and below \<open>v\<close> for the sign -1.
\<close>

theorem update_volume_step:
  assumes "0 < maxvol" "maxvol < 1073741824"
    and "0 \<le> audio_volume is" "audio_volume is \<le> maxvol"
    and "sign = 1 \<or> sign = - 1"
  shows "\<exists>nv v'. new_volume maxvol (audio_volume is) sign SDL_VOLUME_STEP = Some nv
      \<and> update_volume maxvol is sign SDL_VOLUME_STEP = Some (is\<lparr>audio_volume := v'\<rparr>)
      \<and> v' = av_clip (if audio_volume is = nv then audio_volume is + sign else nv) 0 maxvol
      \<and> 0 \<le> v' \<and> v' \<le> maxvol
      \<and> (0 < audio_volume is \<and> audio_volume is < maxvol \<and> sign = 1 \<longrightarrow> audio_volume is < v')
      \<and> (0 < audio_volume is \<and> audio_volume is < maxvol \<and> sign = - 1 \<longrightarrow> v' < audio_volume is)"
proof -
  let ?v = "audio_volume is"
  have w: "wrap32 (?v + sign) = ?v + sign"
    using assms by (intro wrap32_id) (auto simp: INT_MIN_def INT_MAX_def)
  obtain nv where nv: "new_volume maxvol ?v sign SDL_VOLUME_STEP = Some nv"
    and nv0: "0 \<le> nv" and up: "0 < ?v \<Longrightarrow> sign = 1 \<Longrightarrow> ?v \<le> nv"
    and down: "0 < ?v \<Longrightarrow> sign = - 1 \<Longrightarrow> nv \<le> ?v"
  proof (cases "?v = 0")
    case True
    then show ?thesis using new_volume_zero[OF assms(1,2,5)] that by simp
  next
    case False
    then have "0 < ?v" using assms(3) by simp
    from new_volume_pos[OF this assms(4,2,5)] show ?thesis using that by blast
  qed
  let ?v' = "av_clip (if ?v = nv then ?v + sign else nv) 0 maxvol"
  have upd: "update_volume maxvol is sign SDL_VOLUME_STEP = Some (is\<lparr>audio_volume := ?v'\<rparr>)"
    using nv w by (auto simp add: update_volume_def)
  have rng: "0 \<le> ?v' \<and> ?v' \<le> maxvol"
    using assms(1) by (intro av_clip_range) simp
  have inc: "?v < ?v'" if "0 < ?v" "?v < maxvol" "sign = 1"
    using up[OF that(1,3)] that by (auto simp: av_clip_def)
  have dec: "?v' < ?v" if "0 < ?v" "?v < maxvol" "sign = - 1"
    using down[OF that(1,3)] nv0 that by (auto simp: av_clip_def)
  show ?thesis
    using nv upd rng inc dec by blast
qed

theorem update_volume_step_witness:
  "(0::int) < 128 \<and> (128::int) < 1073741824
   \<and> 0 \<le> audio_volume sample_state \<and> audio_volume sample_state \<le> 128
   \<and> 0 < audio_volume sample_state \<and> audio_volume sample_state < 128
   \<and> (\<exists>v'. update_volume 128 sample_state 1 SDL_VOLUME_STEP
               = Some (sample_state\<lparr>audio_volume := v'\<rparr>)
             \<and> audio_volume sample_state < v' \<and> v' \<le> 128)
   \<and> (\<exists>v'. update_volume 128 sample_state (- 1) SDL_VOLUME_STEP
               = Some (sample_state\<lparr>audio_volume := v'\<rparr>)
             \<and> v' < audio_volume sample_state \<and> 0 \<le> v')"
proof -
  have v: "audio_volume sample_state = 64" by (simp add: sample_state_def)
  from update_volume_step [of 128 sample_state 1] v
  have up: "\<exists>v'. update_volume 128 sample_state 1 SDL_VOLUME_STEP
               = Some (sample_state\<lparr>audio_volume := v'\<rparr>)
             \<and> audio_volume sample_state < v' \<and> v' \<le> 128"
    by auto
  from update_volume_step [of 128 sample_state "- 1"] v
  have down: "\<exists>v'. update_volume 128 sample_state (- 1) SDL_VOLUME_STEP
               = Some (sample_state\<lparr>audio_volume := v'\<rparr>)
             \<and> v' < audio_volume sample_state \<and> 0 \<le> v'"
    by auto
  show ?thesis using v up down by simp
qed

end
